theory Spec2Isabelle
  imports Complex_Main "HOL-Library.Sublist"
begin

section \<open>Data model of the FLAN kitchen (src/app.py)\<close>

text \<open>
  The Python keeps every entity as a dictionary with fixed keys; each becomes a record.
  String literals of the source that carry accents or pictograms are written without
  them (\<open>''Rassemblement des ingredients''\<close>); no property below depends on them.
  \<open>time.time()\<close> is a parameter \<open>t\<close> of every operation that reads the clock.
\<close>

datatype valeur = Entier int | Texte string

record cuisson_recette =
  mode :: string
  temperature_cuisson :: int
  duree :: string

record recette_details =
  nom :: string
  ingredients :: "(string \<times> valeur) list"
  cuisson :: cuisson_recette
  emoji :: string

record four =
  four_ident :: string
  four_statut :: string
  four_temperature :: int
  commande_en_cours :: "string option"

record etape_faite =
  etape_ident :: string
  etape_description :: string
  etape_timestamp :: real

record commande =
  cmd_ident :: string
  cmd_recette :: string
  cmd_details :: recette_details
  cmd_portions :: int
  cmd_options :: "(string \<times> valeur) list"
  cmd_four_id :: string
  cmd_statut :: string
  cmd_progression :: int
  cmd_etapes :: "etape_faite list"
  cmd_debut :: real
  cmd_fin :: "real option"

text \<open>
  The \<open>data\<close> dictionary of an event has one shape per call site of \<open>ajouter_event\<close>.
  The \<open>paquet\<close> entry of the \<open>prechauffage\<close> and \<open>commande\<close> events (a dump of a
  \<open>PaquetFlan\<close> with its MD5 checksum) is left out.
\<close>

datatype donnees =
    DErreur (phase: string) (erreur: string)
  | DPrechauffage string int
  | DCommande string string
  | DProgression string string string int
  | DTermine string real string

record event =
  ev_type :: string
  ev_data :: donnees
  ev_timestamp :: real

text \<open>
  \<open>CuisineFlan\<close>. \<open>fours\<close> is a dict iterated in insertion order, so an association
  list. The values of \<open>commandes\<close> are references to order objects: \<open>simuler_cuisson\<close>
  keeps the reference it read once and writes through it, so the objects live in a store
  \<open>tas\<close> (a reference is an index) and the dict maps an order id to a reference.
  \<open>events_queue\<close> is the single \<open>queue.Queue()\<close> (unbounded, FIFO).
\<close>

record cuisine =
  fours :: "(string \<times> four) list"
  tas :: "commande list"
  commandes :: "string \<rightharpoonup> nat"
  historique :: "event list"
  events_queue :: "event list"
  compteur_commandes :: nat
  recettes :: "string \<rightharpoonup> recette_details"

definition recettes_init :: "string \<rightharpoonup> recette_details" where
  "recettes_init =
    [''flan_vanille'' \<mapsto>
       \<lparr>nom = ''Flan a la Vanille'',
        ingredients = [(''oeufs'', Entier 4), (''lait'', Texte ''500mL''),
                       (''sucre'', Texte ''100g''), (''vanille'', Texte ''1 gousse'')],
        cuisson = \<lparr>mode = ''bain-marie'', temperature_cuisson = 150, duree = ''40min''\<rparr>,
        emoji = ''flan''\<rparr>,
     ''flan_orange'' \<mapsto>
       \<lparr>nom = ''Flan a l'Orange'',
        ingredients = [(''oeufs'', Entier 4), (''lait'', Texte ''500mL''),
                       (''sucre'', Texte ''100g''), (''oranges'', Entier 2),
                       (''vanille'', Texte ''1 gousse'')],
        cuisson = \<lparr>mode = ''bain-marie'', temperature_cuisson = 150, duree = ''45min''\<rparr>,
        emoji = ''orange''\<rparr>,
     ''flan_chocolat'' \<mapsto>
       \<lparr>nom = ''Flan au Chocolat'',
        ingredients = [(''oeufs'', Entier 4), (''lait'', Texte ''500mL''),
                       (''sucre'', Texte ''80g''), (''chocolat'', Texte ''150g'')],
        cuisson = \<lparr>mode = ''bain-marie'', temperature_cuisson = 160, duree = ''50min''\<rparr>,
        emoji = ''chocolat''\<rparr>,
     ''flan_caramel'' \<mapsto>
       \<lparr>nom = ''Flan au Caramel'',
        ingredients = [(''oeufs'', Entier 6), (''lait'', Texte ''750mL''),
                       (''sucre'', Texte ''150g''), (''caramel'', Texte ''100g'')],
        cuisson = \<lparr>mode = ''bain-marie'', temperature_cuisson = 150, duree = ''55min''\<rparr>,
        emoji = ''tarte''\<rparr>]"

definition four_init :: "string \<Rightarrow> string \<times> four" where
  "four_init k =
     (k, \<lparr>four_ident = k, four_statut = ''disponible'', four_temperature = 0,
          commande_en_cours = None\<rparr>)"

definition cuisine_init :: cuisine where
  "cuisine_init =
     \<lparr>fours = [four_init ''four_1'', four_init ''four_2'', four_init ''four_3''],
      tas = [], commandes = Map.empty, historique = [], events_queue = [],
      compteur_commandes = 0, recettes = recettes_init\<rparr>"

section \<open>Methods of \<open>CuisineFlan\<close>\<close>

text \<open>
  \<open>f"CMD-{n:04d}"\<close>: decimal digits, padded with zeros on the left to four. The
  counter starts at 0 and is only ever incremented, so it is a \<open>nat\<close>.
\<close>

definition chiffre :: "nat \<Rightarrow> char" where
  "chiffre d = char_of (48 + d)"

fun decimal :: "nat \<Rightarrow> string" where
  "decimal n = (if n < 10 then [chiffre n] else decimal (n div 10) @ [chiffre (n mod 10)])"

declare decimal.simps [simp del]

definition format_04d :: "nat \<Rightarrow> string" where
  "format_04d n = replicate (4 - length (decimal n)) (CHR ''0'') @ decimal n"

definition nouvelle_commande_id :: "cuisine \<Rightarrow> string \<times> cuisine" where
  "nouvelle_commande_id s =
     (let s' = s\<lparr>compteur_commandes := compteur_commandes s + 1\<rparr>
      in (''CMD-'' @ format_04d (compteur_commandes s'), s'))"

text \<open>The \<open>for\<close> loop over \<open>self.fours.items()\<close>, first match wins.\<close>

fun premier_disponible :: "(string \<times> four) list \<Rightarrow> string option" where
  "premier_disponible [] = None"
| "premier_disponible ((four_id, f) # reste) =
     (if four_statut f = ''disponible'' then Some four_id else premier_disponible reste)"

definition trouver_four_disponible :: "cuisine \<Rightarrow> string option" where
  "trouver_four_disponible s = premier_disponible (fours s)"

text \<open>
  Python's \<open>xs[i:]\<close> for any integer \<open>i\<close>: a negative start counts from the end and is
  clamped at the front of the list, a start past the end gives the empty list.
\<close>

definition tranche_depuis :: "int \<Rightarrow> 'a list \<Rightarrow> 'a list" where
  "tranche_depuis i xs =
     (let n = int (length xs);
          j = (if i < 0 then max (n + i) 0 else min i n)
      in drop (nat j) xs)"

definition ajouter_event :: "string \<Rightarrow> donnees \<Rightarrow> real \<Rightarrow> cuisine \<Rightarrow> cuisine" where
  "ajouter_event event_type d t s =
     (let ev = \<lparr>ev_type = event_type, ev_data = d, ev_timestamp = t\<rparr>;
          s1 = s\<lparr>events_queue := events_queue s @ [ev]\<rparr>;
          s2 = s1\<lparr>historique := historique s1 @ [ev]\<rparr>
      in if length (historique s2) > 100
         then s2\<lparr>historique := tranche_depuis (- 100) (historique s2)\<rparr>
         else s2)"

text \<open>
  Assignment to one key of the dictionary of an oven: \<open>cuisine.fours[k][...] = v\<close>.
  Every caller below has found \<open>k\<close> among the keys first.
\<close>

definition maj_four :: "string \<Rightarrow> (four \<Rightarrow> four) \<Rightarrow> (string \<times> four) list \<Rightarrow> (string \<times> four) list" where
  "maj_four k g fs = map (\<lambda>(k', f). if k' = k then (k', g f) else (k', f)) fs"

text \<open>Assignment through a reference to an order object: \<open>commande[...] = v\<close>.\<close>

definition maj_commande :: "nat \<Rightarrow> (commande \<Rightarrow> commande) \<Rightarrow> commande list \<Rightarrow> commande list" where
  "maj_commande r g objs = (if r < length objs then objs[r := g (objs ! r)] else objs)"

section \<open>Responses\<close>

text \<open>The members of \<open>FlanStatus\<close> and their numeric code.\<close>

datatype flan_status =
    FLAN_PARFAIT | FLAN_CREE | MOULE_VIDE
  | DEMENAGEMENT | FOUR_OCCUPE
  | MAUVAISE_RECETTE | CUISINE_INTERDITE | RECETTE_SECRETE | FLAN_INTROUVABLE
  | CUISSON_TIMEOUT | FLAN_TROP_GROS | JE_SUIS_THEIERE | TROP_DE_COMMANDES
  | FOUR_EN_PANNE | MAUVAIS_FOUR | CUISINE_FERMEE | FOUR_TIMEOUT

fun code :: "flan_status \<Rightarrow> nat" where
  "code FLAN_PARFAIT = 200" | "code FLAN_CREE = 201" | "code MOULE_VIDE = 204"
| "code DEMENAGEMENT = 301" | "code FOUR_OCCUPE = 302"
| "code MAUVAISE_RECETTE = 400" | "code CUISINE_INTERDITE = 401"
| "code RECETTE_SECRETE = 403" | "code FLAN_INTROUVABLE = 404"
| "code CUISSON_TIMEOUT = 408" | "code FLAN_TROP_GROS = 413"
| "code JE_SUIS_THEIERE = 418" | "code TROP_DE_COMMANDES = 429"
| "code FOUR_EN_PANNE = 500" | "code MAUVAIS_FOUR = 502"
| "code CUISINE_FERMEE = 503" | "code FOUR_TIMEOUT = 504"

text \<open>The \<open>donnees\<close> entry of a response, one shape per endpoint.\<close>

datatype donnees_reponse =
    RPrechauffage string int
  | RCommande string string string string
  | RFours "(string \<times> four) list" nat nat
  | RHistorique "event list" nat

text \<open>
  What a handler returns: \<open>jsonify(creer_reponse_flan(status, data, message)), http\<close>
  (200 when the handler gives no code), or the \<open>KeyError\<close> of a failed dictionary lookup.
\<close>

datatype reponse =
    Reponse (rep_statut: flan_status) (rep_donnees: "donnees_reponse option")
            (rep_message: "string option") (rep_http: nat)
  | KeyError

section \<open>\<open>POST /api/flan/prechauffage\<close>\<close>

text \<open>Python's \<open>not four_id\<close> for an optional string: \<open>None\<close> and \<open>""\<close> are falsy.\<close>

fun non_renseigne :: "string option \<Rightarrow> bool" where
  "non_renseigne None = True"
| "non_renseigne (Some k) = (k = [])"

record requete_prechauffage =
  rq_temperature :: "int option"
  rq_moule :: "string option"

text \<open>
  The handler sleeps (\<open>time.sleep(0.3)\<close>) between reserving the oven and marking it
  ready, so it is two sections: \<open>prechauffage_debut\<close> up to the sleep, which either
  answers 302 or leaves the oven id and temperature for the second section
  \<open>prechauffage_fin\<close>.
\<close>

definition prechauffage_debut ::
  "requete_prechauffage \<Rightarrow> real \<Rightarrow> cuisine \<Rightarrow> (reponse + string \<times> int) \<times> cuisine" where
  "prechauffage_debut rq t s =
     (let temperature = (case rq_temperature rq of None \<Rightarrow> 180 | Some v \<Rightarrow> v);
          four_id = trouver_four_disponible s
      in if non_renseigne four_id
         then (Inl (Reponse FOUR_OCCUPE None
                      (Some ''Tous les fours sont occupes, veuillez patienter'') 302),
               ajouter_event ''erreur''
                 (DErreur ''prechauffage'' ''Tous les fours sont occupes'') t s)
         else
           (let k = the four_id;
                s1 = s\<lparr>fours := maj_four k (\<lambda>f. f\<lparr>four_statut := ''prechauffage''\<rparr>) (fours s)\<rparr>;
                s2 = s1\<lparr>fours := maj_four k (\<lambda>f. f\<lparr>four_temperature := temperature\<rparr>) (fours s1)\<rparr>
            in (Inr (k, temperature),
                ajouter_event ''prechauffage'' (DPrechauffage k temperature) t s2)))"

definition prechauffage_fin :: "string \<times> int \<Rightarrow> cuisine \<Rightarrow> reponse \<times> cuisine" where
  "prechauffage_fin kt s =
     (case kt of (k, temperature) \<Rightarrow>
        (Reponse FLAN_PARFAIT (Some (RPrechauffage k temperature)) None 200,
         s\<lparr>fours := maj_four k (\<lambda>f. f\<lparr>four_statut := ''pret''\<rparr>) (fours s)\<rparr>))"

section \<open>\<open>POST /api/flan/commander\<close>\<close>

text \<open>
  The fields read from the JSON body, \<open>None\<close> for a field that is absent; the defaults
  of \<open>data.get\<close> are applied in the handler. Fields are taken at the JSON type the
  handler expects.
\<close>

record requete_commande =
  rq_recette :: "string option"
  rq_portions :: "int option"
  rq_four_id :: "string option"
  rq_options :: "(string \<times> valeur) list option"

text \<open>
  Lines 363-364: an id that is missing, empty or not a key of \<open>cuisine.fours\<close> is
  replaced by the first available oven.
\<close>

definition resoudre_four :: "string option \<Rightarrow> cuisine \<Rightarrow> string option" where
  "resoudre_four four_id s =
     (if non_renseigne four_id \<or> map_of (fours s) (the four_id) = None
      then trouver_four_disponible s
      else four_id)"

text \<open>Lines 381-392: the dictionary of a new order.\<close>

definition commande_initiale ::
  "string \<Rightarrow> string \<Rightarrow> recette_details \<Rightarrow> int \<Rightarrow> (string \<times> valeur) list \<Rightarrow> string \<Rightarrow> real
     \<Rightarrow> commande" where
  "commande_initiale commande_id recette recette_details portions options four_id t =
     \<lparr>cmd_ident = commande_id, cmd_recette = recette,
      cmd_details = recette_details, cmd_portions = portions,
      cmd_options = options, cmd_four_id = four_id,
      cmd_statut = ''en_preparation'', cmd_progression = 0,
      cmd_etapes = [], cmd_debut = t, cmd_fin = None\<rparr>"

text \<open>Lines 378-394: a fresh id, the new order object and its entry in \<open>cuisine.commandes\<close>.\<close>

definition creer_commande ::
  "string \<Rightarrow> recette_details \<Rightarrow> int \<Rightarrow> (string \<times> valeur) list \<Rightarrow> string \<Rightarrow> real \<Rightarrow> cuisine
     \<Rightarrow> string \<times> cuisine" where
  "creer_commande recette recette_details portions options four_id t s =
     (case nouvelle_commande_id s of (commande_id, s1) \<Rightarrow>
        (commande_id,
         s1\<lparr>tas := tas s1 @
               [commande_initiale commande_id recette recette_details portions options four_id t],
            commandes := (commandes s1)(commande_id \<mapsto> length (tas s1))\<rparr>))"

text \<open>Line 395 and line 396, two separate assignments.\<close>

definition marquer_cuisson :: "string \<Rightarrow> cuisine \<Rightarrow> cuisine" where
  "marquer_cuisson four_id s =
     s\<lparr>fours := maj_four four_id (\<lambda>f. f\<lparr>four_statut := ''cuisson''\<rparr>) (fours s)\<rparr>"

definition lier_commande :: "string \<Rightarrow> string \<Rightarrow> cuisine \<Rightarrow> cuisine" where
  "lier_commande four_id commande_id s =
     s\<lparr>fours := maj_four four_id (\<lambda>f. f\<lparr>commande_en_cours := Some commande_id\<rparr>) (fours s)\<rparr>"

text \<open>The state once lines 378-395 have run, line 396 not yet.\<close>

definition commander_jusqua_395 ::
  "string \<Rightarrow> recette_details \<Rightarrow> int \<Rightarrow> (string \<times> valeur) list \<Rightarrow> string \<Rightarrow> real \<Rightarrow> cuisine
     \<Rightarrow> string \<times> cuisine" where
  "commander_jusqua_395 recette recette_details portions options four_id t s =
     (case creer_commande recette recette_details portions options four_id t s of
        (commande_id, s1) \<Rightarrow> (commande_id, marquer_cuisson four_id s1))"

text \<open>\<open>data.get('recette', 'flan_vanille')\<close>.\<close>

definition recette_demandee :: "requete_commande \<Rightarrow> string" where
  "recette_demandee rq = (case rq_recette rq of None \<Rightarrow> ''flan_vanille'' | Some v \<Rightarrow> v)"

definition requete_vide :: requete_commande where
  "requete_vide = \<lparr>rq_recette = None, rq_portions = None, rq_four_id = None, rq_options = None\<rparr>"

text \<open>
  The handler. The third component is the argument of the \<open>simuler_cuisson\<close> thread it
  starts, if any. The 503 return of lines 365-369 sits inside the branch of line 363 in
  the source; an id that did not enter that branch is not falsy, so the test is written
  once after \<open>resoudre_four\<close>.
\<close>

definition commander ::
  "requete_commande \<Rightarrow> real \<Rightarrow> cuisine \<Rightarrow> reponse \<times> cuisine \<times> string option" where
  "commander rq t s =
     (let recette = recette_demandee rq;
          portions = (case rq_portions rq of None \<Rightarrow> 1 | Some v \<Rightarrow> v);
          options = (case rq_options rq of None \<Rightarrow> [] | Some v \<Rightarrow> v)
      in case recettes s recette of
           None \<Rightarrow>
             (Reponse FLAN_INTROUVABLE None
                (Some (''Recette '' @ recette @ '' introuvable dans le livre de recettes'')) 404,
              ajouter_event ''erreur''
                (DErreur ''commande'' (''Recette inconnue: '' @ recette)) t s,
              None)
         | Some recette_details \<Rightarrow>
             (let four_id = resoudre_four (rq_four_id rq) s
              in if non_renseigne four_id
                 then (Reponse CUISINE_FERMEE None (Some ''Aucun four disponible'') 503, s, None)
                 else
                   (case map_of (fours s) (the four_id) of
                      None \<Rightarrow> (KeyError, s, None)
                    | Some f \<Rightarrow>
                        if four_statut f \<notin> set [''pret'', ''disponible'']
                        then (Reponse FOUR_OCCUPE None
                                (Some (''Le four '' @ the four_id @ '' n'est pas pret'')) 302,
                              s, None)
                        else
                          (case commander_jusqua_395 recette recette_details portions options
                                  (the four_id) t s of
                             (commande_id, s2) \<Rightarrow>
                               (Reponse FLAN_CREE
                                  (Some (RCommande commande_id (nom recette_details)
                                           (emoji recette_details) (the four_id)))
                                  None 201,
                                ajouter_event ''commande'' (DCommande commande_id recette) t
                                  (lier_commande (the four_id) commande_id s2),
                                Some commande_id)))))"

section \<open>\<open>simuler_cuisson\<close>, the thread of one order\<close>

record etape_def =
  ed_ident :: string
  ed_description :: string
  ed_progression :: int
  ed_duree :: real

text \<open>The local list \<open>etapes\<close> of \<open>simuler_cuisson\<close>; durations in seconds.\<close>

definition etapes_def :: "etape_def list" where
  "etapes_def =
     [\<lparr>ed_ident = ''rassemblement_ingredients'',
       ed_description = ''Rassemblement des ingredients'', ed_progression = 10, ed_duree = 0.5\<rparr>,
      \<lparr>ed_ident = ''caramelisation'',
       ed_description = ''Caramelisation du moule'', ed_progression = 25, ed_duree = 0.8\<rparr>,
      \<lparr>ed_ident = ''melange_appareil'',
       ed_description = ''Melange de l'appareil'', ed_progression = 50, ed_duree = 0.6\<rparr>,
      \<lparr>ed_ident = ''versement'',
       ed_description = ''Versement dans le moule'', ed_progression = 60, ed_duree = 0.3\<rparr>,
      \<lparr>ed_ident = ''cuisson'',
       ed_description = ''Cuisson au bain-marie'', ed_progression = 85, ed_duree = 1.5\<rparr>,
      \<lparr>ed_ident = ''refroidissement'',
       ed_description = ''Refroidissement'', ed_progression = 95, ed_duree = 0.7\<rparr>,
      \<lparr>ed_ident = ''demoulage'',
       ed_description = ''Demoulage'', ed_progression = 100, ed_duree = 0.4\<rparr>]"

text \<open>
  Lines 461-474, the body of one loop iteration after its membership test: three writes
  through the reference \<open>r\<close> held in the local \<open>commande\<close>, then the event.
\<close>

definition ev_progression :: "string \<Rightarrow> etape_def \<Rightarrow> donnees" where
  "ev_progression commande_id e =
     DProgression commande_id (ed_ident e) (ed_description e) (ed_progression e)"

definition etape_corps :: "string \<Rightarrow> nat \<Rightarrow> etape_def \<Rightarrow> real \<Rightarrow> cuisine \<Rightarrow> cuisine" where
  "etape_corps commande_id r e t s =
     (let s1 = s\<lparr>tas := maj_commande r (\<lambda>c. c\<lparr>cmd_statut := ed_ident e\<rparr>) (tas s)\<rparr>;
          s2 = s1\<lparr>tas := maj_commande r (\<lambda>c. c\<lparr>cmd_progression := ed_progression e\<rparr>) (tas s1)\<rparr>;
          s3 = s2\<lparr>tas := maj_commande r
                  (\<lambda>c. c\<lparr>cmd_etapes := cmd_etapes c @
                         [\<lparr>etape_ident = ed_ident e, etape_description = ed_description e,
                           etape_timestamp = t\<rparr>]\<rparr>) (tas s2)\<rparr>
      in ajouter_event ''progression'' (ev_progression commande_id e) t s3)"

text \<open>Lines 484-487: the oven named by the order is released, in two assignments.\<close>

definition liberer_four :: "string \<Rightarrow> cuisine \<Rightarrow> cuisine" where
  "liberer_four four_id s =
     (if map_of (fours s) four_id \<noteq> None
      then (let s1 = s\<lparr>fours := maj_four four_id (\<lambda>f. f\<lparr>four_statut := ''disponible''\<rparr>) (fours s)\<rparr>
            in s1\<lparr>fours := maj_four four_id (\<lambda>f. f\<lparr>commande_en_cours := None\<rparr>) (fours s1)\<rparr>)
      else s)"

text \<open>
  Lines 478-493, after the loop; no membership test here. A reference read from the
  dictionary always points to an object, so \<open>tas s ! r\<close> is read with \<open>r\<close> in range.
\<close>

definition terminer :: "string \<Rightarrow> nat \<Rightarrow> real \<Rightarrow> cuisine \<Rightarrow> cuisine" where
  "terminer commande_id r t s =
     (let s1 = s\<lparr>tas := maj_commande r (\<lambda>c. c\<lparr>cmd_statut := ''termine''\<rparr>) (tas s)\<rparr>;
          s2 = s1\<lparr>tas := maj_commande r (\<lambda>c. c\<lparr>cmd_progression := 100\<rparr>) (tas s1)\<rparr>;
          s3 = s2\<lparr>tas := maj_commande r (\<lambda>c. c\<lparr>cmd_fin := Some t\<rparr>) (tas s2)\<rparr>;
          c = tas s3 ! r;
          s4 = liberer_four (cmd_four_id c) s3
      in ajouter_event ''termine''
           (DTermine commande_id (the (cmd_fin c) - cmd_debut c) (cmd_recette c)) t s4)"

text \<open>
  The thread between two suspensions. \<open>Demarree\<close>: started by \<open>commander\<close>, nothing run
  yet. \<open>Suspendue\<close>: inside a \<open>time.sleep\<close> of the loop, holding the reference and the
  stages that remain.
\<close>

datatype tache = Demarree string | Suspendue string nat "etape_def list"

text \<open>
  The \<open>for\<close> loop from its head: with no stage left the code after the loop runs and
  the thread ends; otherwise the membership test, the body, and the sleep (its duration
  is returned with the suspended thread).
\<close>

fun boucle ::
  "string \<Rightarrow> nat \<Rightarrow> etape_def list \<Rightarrow> real \<Rightarrow> cuisine \<Rightarrow> (tache \<times> real) option \<times> cuisine" where
  "boucle commande_id r [] t s = (None, terminer commande_id r t s)"
| "boucle commande_id r (e # reste) t s =
     (if commandes s commande_id = None then (None, s)
      else (Some (Suspendue commande_id r reste, ed_duree e), etape_corps commande_id r e t s))"

text \<open>One section of the thread: from its start or from the end of a sleep to the next sleep.\<close>

fun tache_pas :: "tache \<Rightarrow> real \<Rightarrow> cuisine \<Rightarrow> (tache \<times> real) option \<times> cuisine" where
  "tache_pas (Demarree commande_id) t s =
     (case commandes s commande_id of
        None \<Rightarrow> (None, s)
      | Some r \<Rightarrow> boucle commande_id r etapes_def t s)"
| "tache_pas (Suspendue commande_id r reste) t s = boucle commande_id r reste t s"

text \<open>
  The whole function run with nothing else scheduled in between: the clock advances by
  each sleep, and the durations slept are collected.
\<close>

fun derouler :: "string \<Rightarrow> nat \<Rightarrow> etape_def list \<Rightarrow> real \<Rightarrow> cuisine \<Rightarrow> real list \<times> cuisine" where
  "derouler commande_id r [] t s = ([], terminer commande_id r t s)"
| "derouler commande_id r (e # reste) t s =
     (if commandes s commande_id = None then ([], s)
      else (case derouler commande_id r reste (t + ed_duree e) (etape_corps commande_id r e t s) of
              (ds, s') \<Rightarrow> (ed_duree e # ds, s')))"

definition simuler_cuisson :: "string \<Rightarrow> real \<Rightarrow> cuisine \<Rightarrow> real list \<times> cuisine" where
  "simuler_cuisson commande_id t s =
     (case commandes s commande_id of
        None \<Rightarrow> ([], s)
      | Some r \<Rightarrow> derouler commande_id r etapes_def t s)"

section \<open>Readers\<close>


text \<open>
  \<open>GET /api/flan/historique\<close>: \<open>limit\<close> is the query parameter converted by
  \<open>type=int\<close>, 50 when absent; the events are \<open>cuisine.historique[-limit:]\<close>.
\<close>

definition evenements_recents :: "int \<Rightarrow> cuisine \<Rightarrow> event list" where
  "evenements_recents limit s = tranche_depuis (- limit) (historique s)"

definition historique_route :: "int option \<Rightarrow> cuisine \<Rightarrow> reponse" where
  "historique_route limit_arg s =
     (let limit = (case limit_arg of None \<Rightarrow> 50 | Some v \<Rightarrow> v)
      in Reponse FLAN_PARFAIT
           (Some (RHistorique (evenements_recents limit s) (length (historique s)))) None 200)"

text \<open>
  \<open>GET /api/flan/events\<close>: one turn of the loop of \<open>generate\<close>. With an event queued,
  \<open>events_queue.get\<close> removes and yields the oldest; with the queue still empty at the
  end of the 30 second timeout, the heartbeat is yielded.
\<close>

datatype sortie = Evenement event | Heartbeat real

definition generate_pas :: "real \<Rightarrow> cuisine \<Rightarrow> sortie \<times> cuisine" where
  "generate_pas t s =
     (case events_queue s of
        [] \<Rightarrow> (Heartbeat t, s)
      | ev # q \<Rightarrow> (Evenement ev, s\<lparr>events_queue := q\<rparr>))"

text \<open>
  Several clients of \<open>/api/flan/events\<close>: each runs its own \<open>generate\<close> on the one
  \<open>cuisine.events_queue\<close>. \<open>flux ! i\<close> is what client \<open>i\<close> has been sent so far.
\<close>

definition abonne_pas :: "nat \<Rightarrow> real \<Rightarrow> cuisine \<times> sortie list list \<Rightarrow> cuisine \<times> sortie list list" where
  "abonne_pas i t sf =
     (case sf of (s, flux) \<Rightarrow>
        (case generate_pas t s of (x, s') \<Rightarrow>
           (s', if i < length flux then flux[i := flux ! i @ [x]] else flux)))"

section \<open>The running server\<close>

text \<open>
  The shared \<open>cuisine\<close>, the \<open>simuler_cuisson\<close> threads alive, and the
  \<open>prechauffage\<close> handlers inside their sleep. One step is one handler or thread
  section run from a suspension (or its start) to the next, as a whole. The handlers
  that only read (\<open>liste_fours\<close>, \<open>historique_route\<close>) change nothing and are not steps.
\<close>

record systeme =
  etat :: cuisine
  taches :: "tache list"
  prechauffages :: "(string \<times> int) list"

definition systeme_init :: systeme where
  "systeme_init = \<lparr>etat = cuisine_init, taches = [], prechauffages = []\<rparr>"

definition retirer :: "nat \<Rightarrow> 'a list \<Rightarrow> 'a list" where
  "retirer i xs = take i xs @ drop (Suc i) xs"

inductive pas :: "systeme \<Rightarrow> systeme \<Rightarrow> bool" where
  pas_prechauffage_refus:
    "prechauffage_debut rq t (etat S) = (Inl rep, s') \<Longrightarrow> pas S (S\<lparr>etat := s'\<rparr>)"
| pas_prechauffage_debut:
    "prechauffage_debut rq t (etat S) = (Inr kt, s') \<Longrightarrow>
     pas S (S\<lparr>etat := s', prechauffages := kt # prechauffages S\<rparr>)"
| pas_prechauffage_fin:
    "i < length (prechauffages S) \<Longrightarrow>
     prechauffage_fin (prechauffages S ! i) (etat S) = (rep, s') \<Longrightarrow>
     pas S (S\<lparr>etat := s', prechauffages := retirer i (prechauffages S)\<rparr>)"
| pas_commander_refus:
    "commander rq t (etat S) = (rep, s', None) \<Longrightarrow> pas S (S\<lparr>etat := s'\<rparr>)"
| pas_commander:
    "commander rq t (etat S) = (rep, s', Some commande_id) \<Longrightarrow>
     pas S (S\<lparr>etat := s', taches := Demarree commande_id # taches S\<rparr>)"
| pas_tache_fin:
    "i < length (taches S) \<Longrightarrow> tache_pas (taches S ! i) t (etat S) = (None, s') \<Longrightarrow>
     pas S (S\<lparr>etat := s', taches := retirer i (taches S)\<rparr>)"
| pas_tache_suite:
    "i < length (taches S) \<Longrightarrow> tache_pas (taches S ! i) t (etat S) = (Some (ta, d), s') \<Longrightarrow>
     pas S (S\<lparr>etat := s', taches := (taches S)[i := ta]\<rparr>)"
| pas_flux:
    "generate_pas t (etat S) = (x, s') \<Longrightarrow> pas S (S\<lparr>etat := s'\<rparr>)"

inductive atteignable :: "systeme \<Rightarrow> bool" where
  atteignable_init: "atteignable systeme_init"
| atteignable_pas: "atteignable S \<Longrightarrow> pas S S' \<Longrightarrow> atteignable S'"

text \<open>A run of publications, in order.\<close>

fun publier :: "(string \<times> donnees \<times> real) list \<Rightarrow> cuisine \<Rightarrow> cuisine" where
  "publier [] s = s"
| "publier ((event_type, d, t) # reste) s = publier reste (ajouter_event event_type d t s)"

definition event_de :: "string \<times> donnees \<times> real \<Rightarrow> event" where
  "event_de p = (case p of (event_type, d, t) \<Rightarrow> \<lparr>ev_type = event_type, ev_data = d, ev_timestamp = t\<rparr>)"

text \<open>
  \<open>n\<close> consecutive sections of one thread with nothing else scheduled in between, the
  clock advancing by each sleep.
\<close>

fun avancer :: "nat \<Rightarrow> tache \<Rightarrow> real \<Rightarrow> cuisine \<Rightarrow> tache option \<times> cuisine" where
  "avancer 0 ta t s = (Some ta, s)"
| "avancer (Suc n) ta t s =
     (case tache_pas ta t s of
        (None, s') \<Rightarrow> (None, s')
      | (Some (ta', d), s') \<Rightarrow> avancer n ta' (t + d) s')"


text \<open>
  The server after one \<open>POST /api/flan/commander\<close> for the given recipe with no oven
  named, at time 0 on a fresh kitchen.
\<close>

definition apres_une_commande :: "string \<Rightarrow> cuisine" where
  "apres_une_commande recette =
     fst (snd (commander (requete_vide\<lparr>rq_recette := Some recette\<rparr>) 0 cuisine_init))"


text \<open>
  The running server after that submission, with the thread just started, and after the
  first section of the thread, run at time 1.
\<close>

definition systeme_une_commande :: systeme where
  "systeme_une_commande =
     \<lparr>etat = apres_une_commande ''flan_vanille'', taches = [Demarree ''CMD-0001''],
      prechauffages = []\<rparr>"

definition systeme_premiere_etape :: systeme where
  "systeme_premiere_etape =
     \<lparr>etat = snd (tache_pas (Demarree ''CMD-0001'') 1 (apres_une_commande ''flan_vanille'')),
      taches = [Suspendue ''CMD-0001'' 0 (tl etapes_def)],
      prechauffages = []\<rparr>"

section \<open>Invariants of the running server\<close>

text \<open>Reading an order id back as a number, to show that ids are never reused.\<close>

definition lire_decimal :: "string \<Rightarrow> nat" where
  "lire_decimal cs = foldl (\<lambda>a c. 10 * a + (of_char c - 48)) 0 cs"

fun cid_de :: "tache \<Rightarrow> string" where
  "cid_de (Demarree commande_id) = commande_id"
| "cid_de (Suspendue commande_id r reste) = commande_id"

text \<open>An oven is busy exactly when an order is bound to it.\<close>

definition inv_fours :: "cuisine \<Rightarrow> bool" where
  "inv_fours s \<longleftrightarrow>
     distinct (map fst (fours s)) \<and>
     (\<forall>k f. map_of (fours s) k = Some f \<longrightarrow>
         (four_statut f = ''cuisson'') = (commande_en_cours f \<noteq> None))"

text \<open>A handler asleep in \<open>prechauffage\<close> holds an oven of its own in state \<open>prechauffage\<close>.\<close>

definition inv_prechauffages :: "systeme \<Rightarrow> bool" where
  "inv_prechauffages S \<longleftrightarrow>
     distinct (map fst (prechauffages S)) \<and>
     (\<forall>k \<in> fst ` set (prechauffages S).
         \<exists>f. map_of (fours (etat S)) k = Some f \<and> four_statut f = ''prechauffage'')"

text \<open>
  The dictionary of orders: references point into the store, two ids never share an
  object, every object is reachable from the dictionary, and every id was issued by
  the counter.
\<close>

definition inv_commandes :: "cuisine \<Rightarrow> bool" where
  "inv_commandes s \<longleftrightarrow>
     (\<forall>c r. commandes s c = Some r \<longrightarrow> r < length (tas s)) \<and>
     (\<forall>c1 c2 r. commandes s c1 = Some r \<and> commandes s c2 = Some r \<longrightarrow> c1 = c2) \<and>
     (\<forall>r < length (tas s). \<exists>c. commandes s c = Some r) \<and>
     (\<forall>c r. commandes s c = Some r \<longrightarrow>
         (\<exists>n. 0 < n \<and> n \<le> compteur_commandes s \<and> c = ''CMD-'' @ format_04d n))"

text \<open>Where the thread of an order stands, read off the order object.\<close>

fun etat_tache :: "tache \<Rightarrow> nat \<Rightarrow> commande \<Rightarrow> bool" where
  "etat_tache (Demarree c) r obj \<longleftrightarrow>
     cmd_statut obj = ''en_preparation'' \<and> cmd_progression obj = 0"
| "etat_tache (Suspendue c r' reste) r obj \<longleftrightarrow>
     r' = r \<and>
     (\<exists>fait e. etapes_def = fait @ e # reste \<and>
        cmd_statut obj = ed_ident e \<and> cmd_progression obj = ed_progression e)"

text \<open>
  Every live thread has its order in the dictionary, the oven named by the order is
  cooking for that order, and no two threads serve the same order.
\<close>

definition inv_taches :: "systeme \<Rightarrow> bool" where
  "inv_taches S \<longleftrightarrow>
     distinct (map cid_de (taches S)) \<and>
     (\<forall>ta \<in> set (taches S).
        \<exists>r f. commandes (etat S) (cid_de ta) = Some r \<and>
          etat_tache ta r (tas (etat S) ! r) \<and>
          map_of (fours (etat S)) (cmd_four_id (tas (etat S) ! r)) = Some f \<and>
          four_statut f = ''cuisson'' \<and> commande_en_cours f = Some (cid_de ta))"

text \<open>An order without a live thread is finished, at 100 percent.\<close>

definition inv_termines :: "systeme \<Rightarrow> bool" where
  "inv_termines S \<longleftrightarrow>
     (\<forall>c r. commandes (etat S) c = Some r \<and> c \<notin> cid_de ` set (taches S) \<longrightarrow>
        cmd_statut (tas (etat S) ! r) = ''termine'' \<and> cmd_progression (tas (etat S) ! r) = 100)"

definition inv :: "systeme \<Rightarrow> bool" where
  "inv S \<longleftrightarrow>
     inv_fours (etat S) \<and> inv_prechauffages S \<and> inv_commandes (etat S) \<and>
     inv_taches S \<and> inv_termines S"


section \<open>The event log\<close>

lemma tranche_depuis_neg:
  "0 < k \<Longrightarrow> tranche_depuis (- int k) xs = drop (length xs - k) xs"
  by (auto simp: tranche_depuis_def Let_def max_def nat_diff_distrib')

lemma historique_ajouter_event:
  "historique (ajouter_event ty d t s) =
     drop (Suc (length (historique s)) - 100)
       (historique s @ [\<lparr>ev_type = ty, ev_data = d, ev_timestamp = t\<rparr>])"
  using tranche_depuis_neg[of 100 "historique s @ [\<lparr>ev_type = ty, ev_data = d, ev_timestamp = t\<rparr>]"]
  by (simp add: ajouter_event_def Let_def)

lemma events_queue_ajouter_event:
  "events_queue (ajouter_event ty d t s) =
     events_queue s @ [\<lparr>ev_type = ty, ev_data = d, ev_timestamp = t\<rparr>]"
  by (simp add: ajouter_event_def Let_def)

lemma autres_ajouter_event:
  "fours (ajouter_event ty d t s) = fours s"
  "tas (ajouter_event ty d t s) = tas s"
  "commandes (ajouter_event ty d t s) = commandes s"
  "compteur_commandes (ajouter_event ty d t s) = compteur_commandes s"
  "recettes (ajouter_event ty d t s) = recettes s"
  by (simp_all add: ajouter_event_def Let_def)

lemma drop_dernier: "xs \<noteq> [] \<Longrightarrow> drop (length xs - 1) xs = [last xs]"
  by (cases xs rule: rev_cases) simp_all

lemma evenements_recents_1_ajouter_event:
  "evenements_recents 1 (ajouter_event ty d t s) =
     [\<lparr>ev_type = ty, ev_data = d, ev_timestamp = t\<rparr>]"
proof -
  let ?ev = "\<lparr>ev_type = ty, ev_data = d, ev_timestamp = t\<rparr>"
  let ?h = "drop (Suc (length (historique s)) - 100) (historique s @ [?ev])"
  have ne: "?h \<noteq> []" by simp
  have "last ?h = ?ev" by simp
  with drop_dernier[OF ne] tranche_depuis_neg[of 1 ?h] show ?thesis
    by (simp add: evenements_recents_def historique_ajouter_event)
qed

lemma drop_drop_append:
  "drop (length (drop (length xs - n) xs @ ys) - n) (drop (length xs - n) xs @ ys) =
   drop (length (xs @ ys) - n) (xs @ ys)"
proof (cases "length xs \<le> n")
  case True
  then show ?thesis by simp
next
  case False
  then have "length ys + n - n = length ys" "length xs - n + length ys = length xs + length ys - n"
    by simp_all
  with False show ?thesis by (simp add: add.commute)
qed

lemma historique_publier:
  "historique (publier ps s) =
     (if ps = [] then historique s
      else drop (length (historique s @ map event_de ps) - 100) (historique s @ map event_de ps))"
proof (induction ps arbitrary: s)
  case Nil
  show ?case by simp
next
  case (Cons p ps)
  obtain ty d t where p: "p = (ty, d, t)" by (cases p)
  let ?ev = "\<lparr>ev_type = ty, ev_data = d, ev_timestamp = t\<rparr>"
  have h: "historique (ajouter_event ty d t s) =
             drop (length (historique s @ [?ev]) - 100) (historique s @ [?ev])"
    by (simp add: historique_ajouter_event)
  show ?case
  proof (cases "ps = []")
    case True
    then show ?thesis by (simp add: p h event_de_def)
  next
    case False
    have "historique (publier (p # ps) s) =
            drop (length (drop (length (historique s @ [?ev]) - 100) (historique s @ [?ev])
                     @ map event_de ps) - 100)
              (drop (length (historique s @ [?ev]) - 100) (historique s @ [?ev]) @ map event_de ps)"
      using False by (simp only: p publier.simps Cons.IH h if_False)
    also have "\<dots> = drop (length ((historique s @ [?ev]) @ map event_de ps) - 100)
                        ((historique s @ [?ev]) @ map event_de ps)"
      by (rule drop_drop_append)
    finally show ?thesis by (simp add: p event_de_def)
  qed
qed

text \<open>
  C8. Whatever the state, after \<open>ajouter_event\<close> the history has at most 100 entries
  and is a suffix of the previous history followed by the new event; after any run of
  publications from the initial state it is the last 100 events published, in order.
\<close>

theorem historique_borne:
  "length (historique (ajouter_event ty d t s)) \<le> 100
   \<and> suffix (historique (ajouter_event ty d t s))
        (historique s @ [\<lparr>ev_type = ty, ev_data = d, ev_timestamp = t\<rparr>])
   \<and> historique (publier ps cuisine_init) = drop (length ps - 100) (map event_de ps)
   \<and> length (historique (publier ps cuisine_init)) = min (length ps) 100"
  by (auto simp: historique_ajouter_event historique_publier suffix_drop cuisine_init_def)

section \<open>Submission with an unknown recipe\<close>

text \<open>
  C7. When the requested recipe is not a key of \<open>cuisine.recettes\<close>, \<open>commander\<close>
  answers \<open>FLAN_INTROUVABLE\<close> with HTTP 404 and starts no thread; the dictionary of
  orders, the order objects, the order counter and every oven are as before.
\<close>

theorem commander_recette_inconnue:
  assumes "recettes s (recette_demandee rq) = None"
  shows "fst (commander rq t s) =
           Reponse FLAN_INTROUVABLE None
             (Some (''Recette '' @ recette_demandee rq @ '' introuvable dans le livre de recettes'')) 404
       \<and> snd (snd (commander rq t s)) = None
       \<and> commandes (fst (snd (commander rq t s))) = commandes s
       \<and> tas (fst (snd (commander rq t s))) = tas s
       \<and> compteur_commandes (fst (snd (commander rq t s))) = compteur_commandes s
       \<and> fours (fst (snd (commander rq t s))) = fours s"
  using assms by (simp add: commander_def Let_def autres_ajouter_event)

lemma recette_pistache_inconnue:
  "recettes cuisine_init (recette_demandee (requete_vide\<lparr>rq_recette := Some ''flan_pistache''\<rparr>)) = None"
  by (simp add: cuisine_init_def recettes_init_def recette_demandee_def requete_vide_def)

theorem commander_recette_inconnue_witness:
  "rep_statut (fst (commander (requete_vide\<lparr>rq_recette := Some ''flan_pistache''\<rparr>) 0 cuisine_init))
      = FLAN_INTROUVABLE
   \<and> commandes (fst (snd (commander (requete_vide\<lparr>rq_recette := Some ''flan_pistache''\<rparr>) 0 cuisine_init)))
      = Map.empty
   \<and> fours (fst (snd (commander (requete_vide\<lparr>rq_recette := Some ''flan_pistache''\<rparr>) 0 cuisine_init)))
      = [four_init ''four_1'', four_init ''four_2'', four_init ''four_3'']"
  using commander_recette_inconnue[OF recette_pistache_inconnue, of 0]
  by (simp add: cuisine_init_def)

text \<open>
  C10. The same failed submission publishes exactly one event, of type \<open>erreur\<close>, phase
  \<open>commande\<close>, naming the recipe: it is the new last element of the queue and of the
  history (whose oldest entry leaves if there were already 100), and it is what the
  history query with limit 1 returns.
\<close>

theorem erreur_publiee:
  assumes "recettes s (recette_demandee rq) = None"
  shows "events_queue (fst (snd (commander rq t s))) =
           events_queue s @ [\<lparr>ev_type = ''erreur'',
              ev_data = DErreur ''commande'' (''Recette inconnue: '' @ recette_demandee rq),
              ev_timestamp = t\<rparr>]
       \<and> historique (fst (snd (commander rq t s))) =
           drop (Suc (length (historique s)) - 100)
             (historique s @ [\<lparr>ev_type = ''erreur'',
                ev_data = DErreur ''commande'' (''Recette inconnue: '' @ recette_demandee rq),
                ev_timestamp = t\<rparr>])
       \<and> evenements_recents 1 (fst (snd (commander rq t s))) =
           [\<lparr>ev_type = ''erreur'',
             ev_data = DErreur ''commande'' (''Recette inconnue: '' @ recette_demandee rq),
             ev_timestamp = t\<rparr>]"
  using assms
  by (simp add: commander_def Let_def historique_ajouter_event events_queue_ajouter_event
      evenements_recents_1_ajouter_event del: One_nat_def)

theorem erreur_publiee_witness:
  "events_queue (fst (snd (commander (requete_vide\<lparr>rq_recette := Some ''flan_pistache''\<rparr>) 0 cuisine_init)))
     = [\<lparr>ev_type = ''erreur'', ev_data = DErreur ''commande'' ''Recette inconnue: flan_pistache'',
         ev_timestamp = 0\<rparr>]
   \<and> historique (fst (snd (commander (requete_vide\<lparr>rq_recette := Some ''flan_pistache''\<rparr>) 0 cuisine_init)))
     = [\<lparr>ev_type = ''erreur'', ev_data = DErreur ''commande'' ''Recette inconnue: flan_pistache'',
         ev_timestamp = 0\<rparr>]"
  using erreur_publiee[OF recette_pistache_inconnue, of 0]
  by (simp add: cuisine_init_def recette_demandee_def requete_vide_def)

section \<open>The history query\<close>

lemma evenements_recents_positif:
  assumes "0 < limit"
  shows "evenements_recents limit s = drop (length (historique s) - nat limit) (historique s)"
  using assms tranche_depuis_neg[of "nat limit" "historique s"]
  by (simp add: evenements_recents_def)

text \<open>
  C4 at \<open>limit = 0\<close>: after one event has been published, \<open>historique[-0:]\<close> is the
  whole history, one event, where the claim allows at most \<open>min(0, 100) = 0\<close>.
\<close>

theorem evenements_recents_limite_zero:
  "evenements_recents 0
     (fst (snd (commander (requete_vide\<lparr>rq_recette := Some ''flan_pistache''\<rparr>) 0 cuisine_init)))
     = [\<lparr>ev_type = ''erreur'', ev_data = DErreur ''commande'' ''Recette inconnue: flan_pistache'',
         ev_timestamp = 0\<rparr>]
   \<and> \<not> int (length (evenements_recents 0
           (fst (snd (commander (requete_vide\<lparr>rq_recette := Some ''flan_pistache''\<rparr>) 0 cuisine_init)))))
         \<le> min 0 100"
  by (simp add: commander_def requete_vide_def recette_demandee_def cuisine_init_def
      recettes_init_def Let_def ajouter_event_def evenements_recents_def tranche_depuis_def)

section \<open>The event stream\<close>

text \<open>
  C3 as stated fails with two clients of the stream. One event is published; client 0
  takes it from the queue; client 1, polling next, finds the queue empty and is sent a
  heartbeat. The event is in nobody's queue any more, so client 1 never receives it.
\<close>

theorem flux_partage_contre_exemple:
  "snd (abonne_pas 1 31 (abonne_pas 0 1
          (ajouter_event ''erreur'' (DErreur ''commande'' ''x'') 0 cuisine_init, [[], []])))
     = [[Evenement \<lparr>ev_type = ''erreur'', ev_data = DErreur ''commande'' ''x'', ev_timestamp = 0\<rparr>],
        [Heartbeat 31]]
   \<and> events_queue (fst (abonne_pas 1 31 (abonne_pas 0 1
          (ajouter_event ''erreur'' (DErreur ''commande'' ''x'') 0 cuisine_init, [[], []])))) = []"
  by (simp add: abonne_pas_def generate_pas_def ajouter_event_def cuisine_init_def Let_def)

text \<open>
  C3 as amended. Every published event is appended to the one shared queue, whatever the
  history holds, and \<open>ajouter_event\<close> is a total function of the state: it never waits
  for a client. A client that polls a non-empty queue is sent its oldest event, which
  leaves the queue, and the streams of the other clients are unchanged; a client that
  polls an empty queue until the timeout is sent a heartbeat.
\<close>

theorem file_unique:
  "events_queue (ajouter_event ty d t s) =
      events_queue s @ [\<lparr>ev_type = ty, ev_data = d, ev_timestamp = t\<rparr>]
   \<and> (events_queue s = ev # q \<and> i < length flux \<longrightarrow>
        abonne_pas i t' (s, flux) = (s\<lparr>events_queue := q\<rparr>, flux[i := flux ! i @ [Evenement ev]]))
   \<and> (events_queue s = [] \<and> i < length flux \<longrightarrow>
        abonne_pas i t' (s, flux) = (s, flux[i := flux ! i @ [Heartbeat t']]))"
  by (simp add: events_queue_ajouter_event abonne_pas_def generate_pas_def)

theorem file_unique_witness:
  "snd (abonne_pas 0 1 (ajouter_event ''erreur'' (DErreur ''commande'' ''x'') 0 cuisine_init, [[], []]))
     = [[Evenement \<lparr>ev_type = ''erreur'', ev_data = DErreur ''commande'' ''x'', ev_timestamp = 0\<rparr>], []]
   \<and> snd (abonne_pas 1 31 (cuisine_init, [[], []])) = [[], [Heartbeat 31]]"
proof -
  let ?ev = "\<lparr>ev_type = ''erreur'', ev_data = DErreur ''commande'' ''x'', ev_timestamp = 0\<rparr>"
  let ?s1 = "ajouter_event ''erreur'' (DErreur ''commande'' ''x'') 0 cuisine_init"
  have q1: "events_queue ?s1 = [?ev]"
    by (simp add: events_queue_ajouter_event cuisine_init_def)
  have q0: "events_queue cuisine_init = []"
    by (simp add: cuisine_init_def)
  have "abonne_pas 0 1 (?s1, [[], []]) =
          (?s1\<lparr>events_queue := []\<rparr>, [[], []][0 := [[], []] ! 0 @ [Evenement ?ev]])"
    using file_unique[where s = ?s1 and ev = ?ev and q = "[]" and i = 0 and flux = "[[], []]"
        and t' = 1] q1 by simp
  moreover have "abonne_pas 1 31 (cuisine_init, [[], []]) =
          (cuisine_init, [[], []][1 := [[], []] ! 1 @ [Heartbeat 31]])"
    using file_unique[where s = cuisine_init and i = 1 and flux = "[[], []]" and t' = 31] q0
    by simp
  ultimately show ?thesis by simp
qed

section \<open>Effect of the writes of a thread\<close>

lemma length_maj_commande [simp]: "length (maj_commande r g objs) = length objs"
  by (simp add: maj_commande_def)

lemma nth_maj_commande:
  "maj_commande r g objs ! r' = (if r' = r \<and> r < length objs then g (objs ! r) else objs ! r')"
  by (simp add: maj_commande_def)

lemma maj_commande_maj_commande:
  "maj_commande r g (maj_commande r h objs) = maj_commande r (g \<circ> h) objs"
  by (simp add: maj_commande_def)

lemma etape_corps_eq:
  "etape_corps commande_id r e t s =
     ajouter_event ''progression'' (ev_progression commande_id e) t
       (s\<lparr>tas := maj_commande r
              (\<lambda>c. c\<lparr>cmd_statut := ed_ident e, cmd_progression := ed_progression e,
                     cmd_etapes := cmd_etapes c @
                       [\<lparr>etape_ident = ed_ident e, etape_description = ed_description e,
                         etape_timestamp = t\<rparr>]\<rparr>) (tas s)\<rparr>)"
  by (simp add: etape_corps_def Let_def maj_commande_maj_commande comp_def)

lemma etape_corps_autres:
  "fours (etape_corps commande_id r e t s) = fours s"
  "commandes (etape_corps commande_id r e t s) = commandes s"
  "compteur_commandes (etape_corps commande_id r e t s) = compteur_commandes s"
  "recettes (etape_corps commande_id r e t s) = recettes s"
  "length (tas (etape_corps commande_id r e t s)) = length (tas s)"
  "events_queue (etape_corps commande_id r e t s) =
     events_queue s @ [\<lparr>ev_type = ''progression'', ev_data = ev_progression commande_id e,
        ev_timestamp = t\<rparr>]"
  by (simp_all add: etape_corps_eq autres_ajouter_event events_queue_ajouter_event)

lemma etape_corps_tas:
  "tas (etape_corps commande_id r e t s) ! r' =
     (if r' = r \<and> r < length (tas s)
      then (tas s ! r)\<lparr>cmd_statut := ed_ident e, cmd_progression := ed_progression e,
              cmd_etapes := cmd_etapes (tas s ! r) @
                [\<lparr>etape_ident = ed_ident e, etape_description = ed_description e,
                  etape_timestamp = t\<rparr>]\<rparr>
      else tas s ! r')"
  by (simp add: etape_corps_eq autres_ajouter_event nth_maj_commande)

lemma map_fst_maj_four [simp]: "map fst (maj_four k g fs) = map fst fs"
  by (induction fs) (auto simp: maj_four_def)

lemma map_of_maj_four:
  "map_of (maj_four k g fs) k' = (if k' = k then map_option g (map_of fs k) else map_of fs k')"
  by (induction fs) (auto simp: maj_four_def)

lemma maj_four_maj_four: "maj_four k g (maj_four k h fs) = maj_four k (g \<circ> h) fs"
  by (induction fs) (auto simp: maj_four_def)

lemma liberer_four_eq:
  "fours (liberer_four k s) =
     maj_four k (\<lambda>f. f\<lparr>four_statut := ''disponible'', commande_en_cours := None\<rparr>) (fours s)"
proof (cases "map_of (fours s) k")
  case None
  then have "k \<notin> fst ` set (fours s)" by (simp add: map_of_eq_None_iff)
  then have "maj_four k g (fours s) = fours s" for g
    by (induction "fours s") (force simp: maj_four_def intro!: map_idI)+
  with None show ?thesis by (simp add: liberer_four_def)
next
  case (Some f)
  then show ?thesis by (simp add: liberer_four_def Let_def maj_four_maj_four comp_def)
qed

lemma liberer_four_autres:
  "tas (liberer_four k s) = tas s"
  "commandes (liberer_four k s) = commandes s"
  "compteur_commandes (liberer_four k s) = compteur_commandes s"
  "events_queue (liberer_four k s) = events_queue s"
  "historique (liberer_four k s) = historique s"
  by (simp_all add: liberer_four_def Let_def)

lemma terminer_autres:
  "commandes (terminer commande_id r t s) = commandes s"
  "compteur_commandes (terminer commande_id r t s) = compteur_commandes s"
  "length (tas (terminer commande_id r t s)) = length (tas s)"
  by (simp_all add: terminer_def Let_def autres_ajouter_event liberer_four_autres)

lemma terminer_tas:
  "tas (terminer commande_id r t s) ! r' =
     (if r' = r \<and> r < length (tas s)
      then (tas s ! r)\<lparr>cmd_statut := ''termine'', cmd_progression := 100, cmd_fin := Some t\<rparr>
      else tas s ! r')"
  by (simp add: terminer_def Let_def autres_ajouter_event liberer_four_autres nth_maj_commande)

lemma terminer_fours:
  "r < length (tas s) \<Longrightarrow>
   fours (terminer commande_id r t s) =
     maj_four (cmd_four_id (tas s ! r))
       (\<lambda>f. f\<lparr>four_statut := ''disponible'', commande_en_cours := None\<rparr>) (fours s)"
  by (simp add: terminer_def Let_def autres_ajouter_event liberer_four_eq nth_maj_commande)

lemma terminer_events_queue:
  "r < length (tas s) \<Longrightarrow>
   events_queue (terminer commande_id r t s) =
     events_queue s @ [\<lparr>ev_type = ''termine'',
        ev_data = DTermine commande_id (t - cmd_debut (tas s ! r)) (cmd_recette (tas s ! r)),
        ev_timestamp = t\<rparr>]"
  by (simp add: terminer_def Let_def events_queue_ajouter_event liberer_four_autres nth_maj_commande)

lemma derouler_effet:
  assumes "commandes s commande_id = Some r" "r < length (tas s)"
  shows "fst (derouler commande_id r reste t s) = map ed_duree reste
       \<and> cmd_statut (tas (snd (derouler commande_id r reste t s)) ! r) = ''termine''
       \<and> cmd_progression (tas (snd (derouler commande_id r reste t s)) ! r) = 100
       \<and> map etape_ident (cmd_etapes (tas (snd (derouler commande_id r reste t s)) ! r)) =
           map etape_ident (cmd_etapes (tas s ! r)) @ map ed_ident reste
       \<and> map ev_data (events_queue (snd (derouler commande_id r reste t s))) =
           map ev_data (events_queue s) @ map (ev_progression commande_id) reste @
           [DTermine commande_id (t + sum_list (map ed_duree reste) - cmd_debut (tas s ! r))
              (cmd_recette (tas s ! r))]"
  using assms
proof (induction reste arbitrary: s t)
  case Nil
  then show ?case
    by (simp add: terminer_tas terminer_events_queue)
next
  case (Cons e reste)
  let ?s1 = "etape_corps commande_id r e t s"
  have 1: "commandes ?s1 commande_id = Some r" "r < length (tas ?s1)"
    using Cons.prems by (simp_all add: etape_corps_autres)
  note IH = Cons.IH[OF 1, of "t + ed_duree e"]
  show ?case
    using Cons.prems IH
    by (simp add: split_beta etape_corps_autres etape_corps_tas add.assoc)
qed

section \<open>A successful submission\<close>

lemma premier_disponible_Some:
  assumes "premier_disponible fs = Some k" "distinct (map fst fs)"
  shows "\<exists>f. map_of fs k = Some f \<and> four_statut f = ''disponible''"
  using assms
proof (induction fs)
  case Nil
  then show ?case by simp
next
  case (Cons p fs)
  obtain k' f' where p: "p = (k', f')" by (cases p)
  show ?case
  proof (cases "four_statut f' = ''disponible''")
    case True
    with Cons.prems p show ?thesis by simp
  next
    case False
    with Cons.prems p have 1: "premier_disponible fs = Some k" by simp
    with Cons have "\<exists>f. map_of fs k = Some f \<and> four_statut f = ''disponible''" by simp
    then obtain f where f: "map_of fs k = Some f" "four_statut f = ''disponible''" by blast
    from map_of_SomeD[OF f(1)] have "k \<in> fst ` set fs" by force
    with Cons.prems p have "k \<noteq> k'" by auto
    with f p show ?thesis by simp
  qed
qed

lemma commander_succes:
  assumes "recettes s (recette_demandee rq) = Some details"
      and "resoudre_four (rq_four_id rq) s = Some k" "k \<noteq> []"
      and "map_of (fours s) k = Some f"
      and "four_statut f = ''pret'' \<or> four_statut f = ''disponible''"
  shows "commander rq t s =
     (Reponse FLAN_CREE
        (Some (RCommande (fst (nouvelle_commande_id s)) (nom details) (emoji details) k)) None 201,
      ajouter_event ''commande''
        (DCommande (fst (nouvelle_commande_id s)) (recette_demandee rq)) t
        (s\<lparr>compteur_commandes := compteur_commandes s + 1,
           tas := tas s @
             [commande_initiale (fst (nouvelle_commande_id s)) (recette_demandee rq) details
                (case rq_portions rq of None \<Rightarrow> 1 | Some v \<Rightarrow> v)
                (case rq_options rq of None \<Rightarrow> [] | Some v \<Rightarrow> v) k t],
           commandes := (commandes s)(fst (nouvelle_commande_id s) \<mapsto> length (tas s)),
           fours := maj_four k
              (\<lambda>f. f\<lparr>four_statut := ''cuisson'',
                     commande_en_cours := Some (fst (nouvelle_commande_id s))\<rparr>) (fours s)\<rparr>),
      Some (fst (nouvelle_commande_id s)))"
  using assms
  by (auto simp: commander_def Let_def commander_jusqua_395_def creer_commande_def
      nouvelle_commande_id_def marquer_cuisson_def lier_commande_def maj_four_maj_four comp_def)

section \<open>Example runs\<close>

lemma format_04d_1: "format_04d (Suc 0) = ''0001''"
  by code_simp

lemma apres_une_commande_champs:
  assumes "recettes_init recette = Some details"
  shows "commandes (apres_une_commande recette) = [''CMD-0001'' \<mapsto> 0]"
    and "tas (apres_une_commande recette) =
           [commande_initiale ''CMD-0001'' recette details 1 [] ''four_1'' 0]"
    and "fours (apres_une_commande recette) =
           [(''four_1'', \<lparr>four_ident = ''four_1'', four_statut = ''cuisson'', four_temperature = 0,
                commande_en_cours = Some ''CMD-0001''\<rparr>),
            four_init ''four_2'', four_init ''four_3'']"
    and "events_queue (apres_une_commande recette) =
           [\<lparr>ev_type = ''commande'', ev_data = DCommande ''CMD-0001'' recette, ev_timestamp = 0\<rparr>]"
    and "snd (snd (commander (requete_vide\<lparr>rq_recette := Some recette\<rparr>) 0 cuisine_init))
           = Some ''CMD-0001''"
proof -
  let ?rq = "requete_vide\<lparr>rq_recette := Some recette\<rparr>"
  have 1: "recettes cuisine_init (recette_demandee ?rq) = Some details"
    using assms by (simp add: cuisine_init_def recette_demandee_def)
  have 2: "resoudre_four (rq_four_id ?rq) cuisine_init = Some ''four_1''"
    by (simp add: requete_vide_def resoudre_four_def trouver_four_disponible_def cuisine_init_def
        four_init_def)
  have 3: "map_of (fours cuisine_init) ''four_1'' = Some (snd (four_init ''four_1''))"
    by (simp add: cuisine_init_def four_init_def)
  have 4: "four_statut (snd (four_init ''four_1'')) = ''pret'' \<or>
           four_statut (snd (four_init ''four_1'')) = ''disponible''"
    by (simp add: four_init_def)
  have 5: "fst (nouvelle_commande_id cuisine_init) = ''CMD-0001''"
    by (simp add: nouvelle_commande_id_def cuisine_init_def format_04d_1)
  have 6: "''four_1'' \<noteq> []" by simp
  note c = commander_succes[OF 1 2 6 3 4, of 0, unfolded 5]
  show "commandes (apres_une_commande recette) = [''CMD-0001'' \<mapsto> 0]"
    unfolding apres_une_commande_def c by (simp add: autres_ajouter_event cuisine_init_def)
  show "tas (apres_une_commande recette) =
           [commande_initiale ''CMD-0001'' recette details 1 [] ''four_1'' 0]"
    unfolding apres_une_commande_def c
    by (simp add: autres_ajouter_event cuisine_init_def recette_demandee_def requete_vide_def)
  show "fours (apres_une_commande recette) =
           [(''four_1'', \<lparr>four_ident = ''four_1'', four_statut = ''cuisson'', four_temperature = 0,
                commande_en_cours = Some ''CMD-0001''\<rparr>),
            four_init ''four_2'', four_init ''four_3'']"
    unfolding apres_une_commande_def c
    by (simp add: autres_ajouter_event cuisine_init_def maj_four_def four_init_def)
  show "events_queue (apres_une_commande recette) =
           [\<lparr>ev_type = ''commande'', ev_data = DCommande ''CMD-0001'' recette, ev_timestamp = 0\<rparr>]"
    unfolding apres_une_commande_def c
    by (simp add: events_queue_ajouter_event cuisine_init_def recette_demandee_def)
  show "snd (snd (commander ?rq 0 cuisine_init)) = Some ''CMD-0001''"
    unfolding c by simp
qed

lemma avancer_boucle:
  assumes "commandes s commande_id = Some r" "r < length (tas s)" "reste \<noteq> []"
  shows "fst (avancer (length reste) (Suspendue commande_id r reste) t s)
           = Some (Suspendue commande_id r [])
       \<and> cmd_statut (tas (snd (avancer (length reste) (Suspendue commande_id r reste) t s)) ! r)
           = ed_ident (last reste)
       \<and> cmd_progression (tas (snd (avancer (length reste) (Suspendue commande_id r reste) t s)) ! r)
           = ed_progression (last reste)
       \<and> cmd_four_id (tas (snd (avancer (length reste) (Suspendue commande_id r reste) t s)) ! r)
           = cmd_four_id (tas s ! r)
       \<and> length (tas (snd (avancer (length reste) (Suspendue commande_id r reste) t s)))
           = length (tas s)
       \<and> fours (snd (avancer (length reste) (Suspendue commande_id r reste) t s)) = fours s
       \<and> commandes (snd (avancer (length reste) (Suspendue commande_id r reste) t s)) = commandes s
       \<and> length (events_queue (snd (avancer (length reste) (Suspendue commande_id r reste) t s)))
           = length (events_queue s) + length reste"
  using assms
proof (induction reste arbitrary: s t)
  case Nil
  then show ?case by simp
next
  case (Cons e reste)
  let ?s1 = "etape_corps commande_id r e t s"
  have 1: "commandes ?s1 commande_id = Some r" "r < length (tas ?s1)"
    using Cons.prems by (simp_all add: etape_corps_autres)
  show ?case
  proof (cases "reste = []")
    case True
    with Cons.prems show ?thesis
      by (simp add: etape_corps_autres etape_corps_tas)
  next
    case False
    note IH = Cons.IH[OF 1 False, of "t + ed_duree e"]
    show ?thesis
      using Cons.prems False IH
      by (simp add: etape_corps_autres etape_corps_tas)
  qed
qed

lemma avancer_demarree:
  "commandes s commande_id = Some r \<Longrightarrow>
   avancer (Suc n) (Demarree commande_id) t s = avancer (Suc n) (Suspendue commande_id r etapes_def) t s"
  by simp

lemma recette_vanille: "recettes_init ''flan_vanille'' = Some
       \<lparr>nom = ''Flan a la Vanille'',
        ingredients = [(''oeufs'', Entier 4), (''lait'', Texte ''500mL''),
                       (''sucre'', Texte ''100g''), (''vanille'', Texte ''1 gousse'')],
        cuisson = \<lparr>mode = ''bain-marie'', temperature_cuisson = 150, duree = ''40min''\<rparr>,
        emoji = ''flan''\<rparr>"
  by (simp add: recettes_init_def)

lemma sept_etapes:
  "avancer 7 (Demarree ''CMD-0001'') 0 (apres_une_commande ''flan_vanille'') =
     avancer (length etapes_def) (Suspendue ''CMD-0001'' 0 etapes_def) 0 (apres_une_commande ''flan_vanille'')"
  using avancer_demarree[of "apres_une_commande ''flan_vanille''" "''CMD-0001''" 0 6 0]
  by (simp add: apres_une_commande_champs[OF recette_vanille] etapes_def_def eval_nat_numeral)

lemma recette_caramel: "recettes_init ''flan_caramel'' = Some
       \<lparr>nom = ''Flan au Caramel'',
        ingredients = [(''oeufs'', Entier 6), (''lait'', Texte ''750mL''),
                       (''sucre'', Texte ''150g''), (''caramel'', Texte ''100g'')],
        cuisson = \<lparr>mode = ''bain-marie'', temperature_cuisson = 150, duree = ''55min''\<rparr>,
        emoji = ''tarte''\<rparr>"
  by (simp add: recettes_init_def)

lemma durees_etapes_def: "map ed_duree etapes_def = [0.5, 0.8, 0.6, 0.3, 1.5, 0.7, 0.4]"
  by (simp add: etapes_def_def)

section \<open>The stages of the pipeline\<close>

text \<open>
  C6 as stated fails on the durations: the orders of two recipes whose \<open>cuisson\<close> tables
  differ (40 and 55 minutes) sleep the same seven durations, those of the local list
  \<open>etapes\<close>; \<open>simuler_cuisson\<close> never reads the recipe.
\<close>

theorem durees_hors_recette:
  "fst (simuler_cuisson ''CMD-0001'' 0 (apres_une_commande ''flan_vanille''))
     = [0.5, 0.8, 0.6, 0.3, 1.5, 0.7, 0.4]
   \<and> fst (simuler_cuisson ''CMD-0001'' 0 (apres_une_commande ''flan_caramel''))
     = [0.5, 0.8, 0.6, 0.3, 1.5, 0.7, 0.4]
   \<and> cuisson (cmd_details (tas (apres_une_commande ''flan_vanille'') ! 0))
     = \<lparr>mode = ''bain-marie'', temperature_cuisson = 150, duree = ''40min''\<rparr>
   \<and> cuisson (cmd_details (tas (apres_une_commande ''flan_caramel'') ! 0))
     = \<lparr>mode = ''bain-marie'', temperature_cuisson = 150, duree = ''55min''\<rparr>"
  using derouler_effet[of "apres_une_commande ''flan_vanille''" "''CMD-0001''" 0 etapes_def 0]
        derouler_effet[of "apres_une_commande ''flan_caramel''" "''CMD-0001''" 0 etapes_def 0]
  by (simp add: simuler_cuisson_def apres_une_commande_champs[OF recette_vanille]
      apres_une_commande_champs[OF recette_caramel] durees_etapes_def commande_initiale_def)

text \<open>
  C6 as amended. For an order present in the table, the thread run to its end sleeps the
  seven fixed durations 0.5, 0.8, 0.6, 0.3, 1.5, 0.7, 0.4 whatever the recipe, appends
  the seven stages to the order in the order of the list, each once, publishes the seven
  progress events with checkpoints 10, 25, 50, 60, 85, 95, 100 and then the completion
  event, and leaves the order at \<open>termine\<close>, 100 percent. Section by section: the thread
  starts on the whole list, a section with stage \<open>e\<close> first sets the order to that stage
  and its checkpoint and goes to sleep for its duration with the rest of the list, and
  with no stage left the thread ends.
\<close>

theorem simuler_cuisson_etapes:
  assumes "commandes s commande_id = Some r" "r < length (tas s)"
  shows "fst (simuler_cuisson commande_id t s) = [0.5, 0.8, 0.6, 0.3, 1.5, 0.7, 0.4]
       \<and> cmd_statut (tas (snd (simuler_cuisson commande_id t s)) ! r) = ''termine''
       \<and> cmd_progression (tas (snd (simuler_cuisson commande_id t s)) ! r) = 100
       \<and> map etape_ident (cmd_etapes (tas (snd (simuler_cuisson commande_id t s)) ! r)) =
           map etape_ident (cmd_etapes (tas s ! r)) @
           [''rassemblement_ingredients'', ''caramelisation'', ''melange_appareil'',
            ''versement'', ''cuisson'', ''refroidissement'', ''demoulage'']
       \<and> map ev_data (events_queue (snd (simuler_cuisson commande_id t s))) =
           map ev_data (events_queue s) @
           [DProgression commande_id ''rassemblement_ingredients'' ''Rassemblement des ingredients'' 10,
            DProgression commande_id ''caramelisation'' ''Caramelisation du moule'' 25,
            DProgression commande_id ''melange_appareil'' ''Melange de l'appareil'' 50,
            DProgression commande_id ''versement'' ''Versement dans le moule'' 60,
            DProgression commande_id ''cuisson'' ''Cuisson au bain-marie'' 85,
            DProgression commande_id ''refroidissement'' ''Refroidissement'' 95,
            DProgression commande_id ''demoulage'' ''Demoulage'' 100,
            DTermine commande_id (t + 4.8 - cmd_debut (tas s ! r)) (cmd_recette (tas s ! r))]
       \<and> tache_pas (Demarree commande_id) t s = tache_pas (Suspendue commande_id r etapes_def) t s
       \<and> fst (tache_pas (Suspendue commande_id r (e # reste)) t s)
           = Some (Suspendue commande_id r reste, ed_duree e)
       \<and> cmd_statut (tas (snd (tache_pas (Suspendue commande_id r (e # reste)) t s)) ! r) = ed_ident e
       \<and> cmd_progression (tas (snd (tache_pas (Suspendue commande_id r (e # reste)) t s)) ! r)
           = ed_progression e
       \<and> fst (tache_pas (Suspendue commande_id r []) t s) = None"
  using derouler_effet[OF assms, of etapes_def t] assms
  by (simp add: simuler_cuisson_def etape_corps_tas)
     (simp add: etapes_def_def ev_progression_def)

theorem simuler_cuisson_etapes_witness:
  "fst (simuler_cuisson ''CMD-0001'' 0 (apres_une_commande ''flan_orange''))
     = [0.5, 0.8, 0.6, 0.3, 1.5, 0.7, 0.4]
   \<and> map etape_ident
        (cmd_etapes (tas (snd (simuler_cuisson ''CMD-0001'' 0 (apres_une_commande ''flan_orange''))) ! 0))
     = [''rassemblement_ingredients'', ''caramelisation'', ''melange_appareil'',
        ''versement'', ''cuisson'', ''refroidissement'', ''demoulage'']
   \<and> cmd_statut (tas (snd (simuler_cuisson ''CMD-0001'' 0 (apres_une_commande ''flan_orange''))) ! 0)
     = ''termine''"
proof -
  have o: "recettes_init ''flan_orange'' = Some (the (recettes_init ''flan_orange''))"
    by (simp add: recettes_init_def)
  have 1: "commandes (apres_une_commande ''flan_orange'') ''CMD-0001'' = Some 0"
    by (simp add: apres_une_commande_champs[OF o])
  have 2: "0 < length (tas (apres_une_commande ''flan_orange''))"
    by (simp add: apres_une_commande_champs[OF o])
  have 3: "cmd_etapes (tas (apres_une_commande ''flan_orange'') ! 0) = []"
    by (simp add: apres_une_commande_champs[OF o] commande_initiale_def)
  from simuler_cuisson_etapes[OF 1 2, of 0] 3 show ?thesis by simp
qed

section \<open>An order missing from the table\<close>




section \<open>Choice of the oven\<close>







section \<open>Order ids are never reused\<close>

lemma lire_decimal_append:
  "lire_decimal (cs @ [c]) = 10 * lire_decimal cs + (of_char c - 48)"
  by (simp add: lire_decimal_def)

lemma of_char_chiffre: "d < 10 \<Longrightarrow> of_char (chiffre d) - 48 = d"
  by (simp add: chiffre_def)

lemma lire_decimal_decimal: "lire_decimal (decimal n) = n"
proof (induction n rule: decimal.induct)
  case (1 n)
  show ?case
  proof (cases "n < 10")
    case True
    then show ?thesis
      using lire_decimal_append[of "[]" "chiffre n"]
      by (simp add: decimal.simps[of n] of_char_chiffre) (simp add: lire_decimal_def)
  next
    case False
    with 1 have "lire_decimal (decimal (n div 10)) = n div 10" by simp
    with False show ?thesis
      by (simp add: decimal.simps[of n] lire_decimal_append of_char_chiffre)
  qed
qed

lemma lire_decimal_zeros: "lire_decimal (replicate k (CHR ''0'') @ cs) = lire_decimal cs"
proof -
  have "foldl (\<lambda>a c. 10 * a + (of_char c - 48)) 0 (replicate k (CHR ''0'')) = (0::nat)"
    by (induction k) simp_all
  then show ?thesis by (simp add: lire_decimal_def)
qed

lemma lire_decimal_format_04d: "lire_decimal (format_04d n) = n"
  unfolding format_04d_def by (rule trans[OF lire_decimal_zeros lire_decimal_decimal])

lemma format_04d_inj: "format_04d m = format_04d n \<Longrightarrow> m = n"
  by (metis lire_decimal_format_04d)

section \<open>Lists of threads\<close>

lemma set_retirer: "set (retirer i xs) \<subseteq> set xs"
  by (auto simp: retirer_def dest: in_set_takeD in_set_dropD)

lemma set_retirer_nth: "i < length xs \<Longrightarrow> set xs = insert (xs ! i) (set (retirer i xs))"
proof -
  assume "i < length xs"
  then have "xs = take i xs @ xs ! i # drop (Suc i) xs" by (rule id_take_nth_drop)
  then have "set xs = set (take i xs @ xs ! i # drop (Suc i) xs)" by simp
  then show ?thesis by (simp add: retirer_def)
qed

lemma distinct_map_retirer:
  assumes "distinct (map f xs)" "i < length xs"
  shows "distinct (map f (retirer i xs))" "f (xs ! i) \<notin> f ` set (retirer i xs)"
proof -
  from assms(2) have "xs = take i xs @ xs ! i # drop (Suc i) xs" by (rule id_take_nth_drop)
  then have "map f xs = map f (take i xs) @ f (xs ! i) # map f (drop (Suc i) xs)"
    by (metis list.simps(9) map_append)
  with assms(1) have d: "distinct (map f (take i xs) @ f (xs ! i) # map f (drop (Suc i) xs))"
    by simp
  then show "distinct (map f (retirer i xs))" by (auto simp: retirer_def)
  from d show "f (xs ! i) \<notin> f ` set (retirer i xs)" by (auto simp: retirer_def)
qed

lemma set_list_update_cases:
  assumes "z \<in> set (xs[i := y])"
  shows "z = y \<or> (\<exists>j < length xs. j \<noteq> i \<and> z = xs ! j)"
proof -
  from assms obtain j where j: "j < length xs" "z = xs[i := y] ! j"
    by (auto simp: in_set_conv_nth)
  then show ?thesis by (cases "j = i") auto
qed

lemma distinct_map_nth_neq:
  "distinct (map f xs) \<Longrightarrow> i < length xs \<Longrightarrow> j < length xs \<Longrightarrow> j \<noteq> i \<Longrightarrow> f (xs ! j) \<noteq> f (xs ! i)"
  by (metis distinct_conv_nth length_map nth_map)

section \<open>What each step changes\<close>

lemma commander_sans_tache:
  "commander rq t s = (rep, s', None) \<Longrightarrow>
   fours s' = fours s \<and> tas s' = tas s \<and> commandes s' = commandes s \<and>
   compteur_commandes s' = compteur_commandes s"
  by (auto simp: commander_def Let_def autres_ajouter_event
      split: option.splits if_splits prod.splits)

lemma commander_avec_tache:
  assumes "commander rq t s = (rep, s', Some c)"
  shows "\<exists>k f obj. map_of (fours s) k = Some f \<and>
           (four_statut f = ''pret'' \<or> four_statut f = ''disponible'') \<and>
           c = ''CMD-'' @ format_04d (Suc (compteur_commandes s)) \<and>
           fours s' = maj_four k (\<lambda>f. f\<lparr>four_statut := ''cuisson'', commande_en_cours := Some c\<rparr>)
                        (fours s) \<and>
           tas s' = tas s @ [obj] \<and> cmd_four_id obj = k \<and>
           cmd_statut obj = ''en_preparation'' \<and> cmd_progression obj = 0 \<and>
           commandes s' = (commandes s)(c \<mapsto> length (tas s)) \<and>
           compteur_commandes s' = Suc (compteur_commandes s)"
proof (cases "recettes s (recette_demandee rq)")
  case None
  with assms show ?thesis by (simp add: commander_def Let_def)
next
  case (Some details)
  show ?thesis
  proof (cases "resoudre_four (rq_four_id rq) s")
    case None
    with assms Some show ?thesis by (simp add: commander_def Let_def)
  next
    case k: (Some k)
    show ?thesis
    proof (cases "k = []")
      case True
      with assms Some k show ?thesis by (simp add: commander_def Let_def)
    next
      case nonvide: False
      show ?thesis
      proof (cases "map_of (fours s) k")
        case None
        with assms Some k nonvide show ?thesis by (simp add: commander_def Let_def)
      next
        case f: (Some f)
        show ?thesis
        proof (cases "four_statut f = ''pret'' \<or> four_statut f = ''disponible''")
          case False
          with assms Some k nonvide f show ?thesis by (simp add: commander_def Let_def)
        next
          case True
          note c = commander_succes[OF Some k nonvide f True, of t]
          from assms[unfolded c] have
            c_eq: "c = fst (nouvelle_commande_id s)" and
            s'_eq: "s' = ajouter_event ''commande''
               (DCommande (fst (nouvelle_commande_id s)) (recette_demandee rq)) t
               (s\<lparr>compteur_commandes := compteur_commandes s + 1,
                  tas := tas s @
                    [commande_initiale (fst (nouvelle_commande_id s)) (recette_demandee rq) details
                       (case rq_portions rq of None \<Rightarrow> 1 | Some v \<Rightarrow> v)
                       (case rq_options rq of None \<Rightarrow> [] | Some v \<Rightarrow> v) k t],
                  commandes := (commandes s)(fst (nouvelle_commande_id s) \<mapsto> length (tas s)),
                  fours := maj_four k
                     (\<lambda>f. f\<lparr>four_statut := ''cuisson'',
                            commande_en_cours := Some (fst (nouvelle_commande_id s))\<rparr>) (fours s)\<rparr>)"
            by auto
          show ?thesis
            apply (rule exI[of _ k], rule exI[of _ f])
            apply (rule exI[of _ "commande_initiale c (recette_demandee rq) details
                       (case rq_portions rq of None \<Rightarrow> 1 | Some v \<Rightarrow> v)
                       (case rq_options rq of None \<Rightarrow> [] | Some v \<Rightarrow> v) k t"])
            using f True
            by (simp add: s'_eq autres_ajouter_event c_eq commande_initiale_def
                nouvelle_commande_id_def)
        qed
      qed
    qed
  qed
qed

lemma prechauffage_debut_refus:
  "prechauffage_debut rq t s = (Inl rep, s') \<Longrightarrow>
   fours s' = fours s \<and> tas s' = tas s \<and> commandes s' = commandes s \<and>
   compteur_commandes s' = compteur_commandes s"
  by (auto simp: prechauffage_debut_def Let_def autres_ajouter_event split: if_splits)

lemma prechauffage_debut_ok:
  "prechauffage_debut rq t s = (Inr (k, temp), s') \<Longrightarrow>
   premier_disponible (fours s) = Some k \<and>
   fours s' = maj_four k (\<lambda>f. f\<lparr>four_statut := ''prechauffage'', four_temperature := temp\<rparr>) (fours s) \<and>
   tas s' = tas s \<and> commandes s' = commandes s \<and>
   compteur_commandes s' = compteur_commandes s"
  by (cases "trouver_four_disponible s")
     (auto simp: prechauffage_debut_def Let_def autres_ajouter_event maj_four_maj_four comp_def
        trouver_four_disponible_def split: if_splits)

lemma prechauffage_fin_effet:
  "prechauffage_fin (k, temp) s = (rep, s') \<Longrightarrow>
   fours s' = maj_four k (\<lambda>f. f\<lparr>four_statut := ''pret''\<rparr>) (fours s) \<and>
   tas s' = tas s \<and> commandes s' = commandes s \<and>
   compteur_commandes s' = compteur_commandes s"
  by (auto simp: prechauffage_fin_def)

lemma generate_pas_effet:
  "generate_pas t s = (x, s') \<Longrightarrow>
   fours s' = fours s \<and> tas s' = tas s \<and> commandes s' = commandes s \<and>
   compteur_commandes s' = compteur_commandes s"
  by (auto simp: generate_pas_def split: list.splits)

lemma etapes_def_progression:
  "e \<in> set etapes_def \<Longrightarrow>
   (ed_progression e = 100) = (ed_ident e = ''demoulage'') \<and> ed_ident e \<noteq> ''termine'' \<and>
   0 \<le> ed_progression e \<and> ed_progression e \<le> 100"
  by (auto simp: etapes_def_def)

lemma etapes_def_croissant:
  assumes "etapes_def = fait @ e0 # e # reste"
  shows "ed_progression e0 \<le> ed_progression e"
proof -
  have "sorted (map ed_progression (fait @ e0 # e # reste))"
    unfolding assms[symmetric] by (simp add: etapes_def_def)
  then show ?thesis by (simp add: sorted_append)
qed

text \<open>
  A section of a thread whose order is in the table: either the next stage of the list,
  whose checkpoint is not below the progress of the order, or the code after the loop.
\<close>

lemma tache_pas_suite:
  assumes "cid_de ta = c" "commandes s c = Some r" "etat_tache ta r (tas s ! r)"
    and "tache_pas ta t s = (Some (ta', d), s')"
  obtains e reste fait where "etapes_def = fait @ e # reste" "ta' = Suspendue c r reste"
    "s' = etape_corps c r e t s" "d = ed_duree e"
    "cmd_progression (tas s ! r) \<le> ed_progression e"
proof (cases ta)
  case (Demarree c')
  with assms(1) have c': "c' = c" by simp
  let ?e = "hd etapes_def" and ?reste = "tl etapes_def"
  have d: "etapes_def = [] @ ?e # ?reste" by (simp add: etapes_def_def)
  then have "?e \<in> set etapes_def" by (metis in_set_conv_decomp)
  from etapes_def_progression[OF this] assms(3) Demarree
  have p: "cmd_progression (tas s ! r) \<le> ed_progression ?e" by simp
  from d have "etapes_def = ?e # ?reste" by simp
  then have b: "boucle c r etapes_def t s = boucle c r (?e # ?reste) t s" by simp
  from assms(2,4) Demarree c' have "ta' = Suspendue c r ?reste" "s' = etape_corps c r ?e t s"
      "d = ed_duree ?e"
    by (simp_all add: b)
  with d p that show ?thesis by blast
next
  case (Suspendue c' r' reste0)
  with assms(1,3) have c': "c' = c" "r' = r" by simp_all
  show ?thesis
  proof (cases reste0)
    case Nil
    with assms(4) Suspendue show ?thesis by simp
  next
    case (Cons e reste)
    from assms(3) Suspendue Cons obtain fait0 e0 where f:
      "etapes_def = fait0 @ e0 # e # reste" "cmd_progression (tas s ! r) = ed_progression e0"
      by auto
    from f(1) have d: "etapes_def = (fait0 @ [e0]) @ e # reste" by simp
    from etapes_def_croissant[OF f(1)] f(2)
    have p: "cmd_progression (tas s ! r) \<le> ed_progression e" by simp
    from assms(2,4) Suspendue c' Cons have "ta' = Suspendue c r reste" "s' = etape_corps c r e t s"
      "d = ed_duree e" by simp_all
    with d p that show ?thesis by blast
  qed
qed

lemma tache_pas_fin:
  assumes "cid_de ta = c" "commandes s c = Some r" "etat_tache ta r (tas s ! r)"
    and "tache_pas ta t s = (None, s')"
  shows "s' = terminer c r t s"
proof (cases ta)
  case (Demarree c')
  have "etapes_def = hd etapes_def # tl etapes_def" by (simp add: etapes_def_def)
  then have "boucle c r etapes_def t s = boucle c r (hd etapes_def # tl etapes_def) t s" by simp
  with assms(1,2,4) Demarree show ?thesis by simp
next
  case (Suspendue c' r' reste0)
  with assms(1,3) have c': "c' = c" "r' = r" by simp_all
  with assms(2,4) Suspendue show ?thesis by (cases reste0) simp_all
qed

section \<open>Each step keeps the invariant\<close>

lemma inv_meme_coeur:
  assumes "inv S" "fours s' = fours (etat S)" "tas s' = tas (etat S)"
    "commandes s' = commandes (etat S)" "compteur_commandes s' = compteur_commandes (etat S)"
  shows "inv (S\<lparr>etat := s'\<rparr>)"
  using assms
  by (simp add: inv_def inv_fours_def inv_prechauffages_def inv_commandes_def inv_taches_def
      inv_termines_def del: map_of_eq_Some_iff)

lemma inv_fours_libre:
  "inv_fours s \<Longrightarrow> map_of (fours s) k = Some f \<Longrightarrow> four_statut f \<noteq> ''cuisson'' \<Longrightarrow>
   commande_en_cours f = None"
  unfolding inv_fours_def by blast

lemma inv_fours_maj:
  assumes "inv_fours s" "fours s' = maj_four k g (fours s)"
    and "\<And>f. map_of (fours s) k = Some f \<Longrightarrow>
           (four_statut (g f) = ''cuisson'') = (commande_en_cours (g f) \<noteq> None)"
  shows "inv_fours s'"
  using assms by (auto simp: inv_fours_def map_of_maj_four split: if_splits)

lemma inv_taches_autre_four:
  assumes "inv_taches S" "fours s' = maj_four k g (fours (etat S))"
    "tas s' = tas (etat S)" "commandes s' = commandes (etat S)"
    and "\<And>f. map_of (fours (etat S)) k = Some f \<Longrightarrow> four_statut f \<noteq> ''cuisson''"
  shows "inv_taches (S\<lparr>etat := s', prechauffages := ps\<rparr>)"
  unfolding inv_taches_def
proof (intro conjI ballI)
  show "distinct (map cid_de (taches (S\<lparr>etat := s', prechauffages := ps\<rparr>)))"
    using assms(1) by (simp add: inv_taches_def)
next
  fix ta assume "ta \<in> set (taches (S\<lparr>etat := s', prechauffages := ps\<rparr>))"
  then have "ta \<in> set (taches S)" by simp
  with assms(1) obtain r f where rf: "commandes (etat S) (cid_de ta) = Some r"
      "etat_tache ta r (tas (etat S) ! r)"
      "map_of (fours (etat S)) (cmd_four_id (tas (etat S) ! r)) = Some f"
      "four_statut f = ''cuisson''" "commande_en_cours f = Some (cid_de ta)"
    unfolding inv_taches_def by blast
  with assms(5) have "cmd_four_id (tas (etat S) ! r) \<noteq> k" by auto
  with rf assms(2,3,4)
  show "\<exists>r f. commandes (etat (S\<lparr>etat := s', prechauffages := ps\<rparr>)) (cid_de ta) = Some r \<and>
          etat_tache ta r (tas (etat (S\<lparr>etat := s', prechauffages := ps\<rparr>)) ! r) \<and>
          map_of (fours (etat (S\<lparr>etat := s', prechauffages := ps\<rparr>)))
            (cmd_four_id (tas (etat (S\<lparr>etat := s', prechauffages := ps\<rparr>)) ! r)) = Some f \<and>
          four_statut f = ''cuisson'' \<and> commande_en_cours f = Some (cid_de ta)"
    by (simp add: map_of_maj_four)
qed

lemma inv_prechauffage_debut:
  assumes "inv S" "premier_disponible (fours (etat S)) = Some k"
    "fours s' = maj_four k (\<lambda>f. f\<lparr>four_statut := ''prechauffage'', four_temperature := temp\<rparr>)
                  (fours (etat S))"
    "tas s' = tas (etat S)" "commandes s' = commandes (etat S)"
    "compteur_commandes s' = compteur_commandes (etat S)"
  shows "inv (S\<lparr>etat := s', prechauffages := (k, temp) # prechauffages S\<rparr>)"
proof -
  from assms(1) have I: "inv_fours (etat S)" "inv_prechauffages S" "inv_commandes (etat S)"
      "inv_taches S" "inv_termines S" by (simp_all add: inv_def)
  from I(1) have d: "distinct (map fst (fours (etat S)))" by (simp add: inv_fours_def)
  from premier_disponible_Some[OF assms(2) d]
  obtain f where f: "map_of (fours (etat S)) k = Some f" "four_statut f = ''disponible''" by blast
  from f have "four_statut f \<noteq> ''cuisson''" by simp
  with I(1) f have nf: "commande_en_cours f = None" by (blast intro: inv_fours_libre)
  have 1: "inv_fours s'"
    using I(1) assms(3) by (rule inv_fours_maj) (use f nf in auto)
  have nk: "k \<notin> fst ` set (prechauffages S)"
    using I(2) f by (auto simp: inv_prechauffages_def)
  have 2: "inv_prechauffages (S\<lparr>etat := s', prechauffages := (k, temp) # prechauffages S\<rparr>)"
    using I(2) nk f assms(3) by (auto simp: inv_prechauffages_def map_of_maj_four)
  have 3: "inv_commandes s'" using I(3) assms(4,5,6) by (simp add: inv_commandes_def)
  have 4: "inv_taches (S\<lparr>etat := s', prechauffages := (k, temp) # prechauffages S\<rparr>)"
    using I(4) assms(3,4,5) by (rule inv_taches_autre_four) (use f in auto)
  have 5: "inv_termines (S\<lparr>etat := s', prechauffages := (k, temp) # prechauffages S\<rparr>)"
    using I(5) assms(4,5) by (simp add: inv_termines_def)
  from 1 2 3 4 5 show ?thesis by (simp add: inv_def)
qed

lemma inv_prechauffage_fin:
  assumes "inv S" "i < length (prechauffages S)" "prechauffages S ! i = (k, temp)"
    "fours s' = maj_four k (\<lambda>f. f\<lparr>four_statut := ''pret''\<rparr>) (fours (etat S))"
    "tas s' = tas (etat S)" "commandes s' = commandes (etat S)"
    "compteur_commandes s' = compteur_commandes (etat S)"
  shows "inv (S\<lparr>etat := s', prechauffages := retirer i (prechauffages S)\<rparr>)"
proof -
  from assms(1) have I: "inv_fours (etat S)" "inv_prechauffages S" "inv_commandes (etat S)"
      "inv_taches S" "inv_termines S" by (simp_all add: inv_def)
  from assms(2,3) have "k \<in> fst ` set (prechauffages S)"
    by (metis fst_conv image_eqI nth_mem)
  with I(2) obtain f where f: "map_of (fours (etat S)) k = Some f" "four_statut f = ''prechauffage''"
    by (auto simp: inv_prechauffages_def)
  from f have "four_statut f \<noteq> ''cuisson''" by simp
  with I(1) f have nf: "commande_en_cours f = None" by (blast intro: inv_fours_libre)
  have 1: "inv_fours s'"
    using I(1) assms(4) by (rule inv_fours_maj) (use f nf in auto)
  from I(2) have dp: "distinct (map fst (prechauffages S))" by (simp add: inv_prechauffages_def)
  from distinct_map_retirer[OF dp assms(2)] assms(3)
  have dr: "distinct (map fst (retirer i (prechauffages S)))"
    and nk: "k \<notin> fst ` set (retirer i (prechauffages S))" by simp_all
  have 2: "inv_prechauffages (S\<lparr>etat := s', prechauffages := retirer i (prechauffages S)\<rparr>)"
    unfolding inv_prechauffages_def
  proof (intro conjI ballI)
    show "distinct (map fst (prechauffages (S\<lparr>etat := s', prechauffages := retirer i (prechauffages S)\<rparr>)))"
      using dr by simp
  next
    fix k' assume "k' \<in> fst ` set (prechauffages (S\<lparr>etat := s', prechauffages := retirer i (prechauffages S)\<rparr>))"
    then have k': "k' \<in> fst ` set (retirer i (prechauffages S))" by simp
    with nk have "k' \<noteq> k" by auto
    moreover from k' set_retirer[of i "prechauffages S"] have "k' \<in> fst ` set (prechauffages S)"
      by auto
    ultimately show "\<exists>f. map_of (fours (etat (S\<lparr>etat := s', prechauffages := retirer i (prechauffages S)\<rparr>))) k' = Some f \<and>
        four_statut f = ''prechauffage''"
      using I(2) assms(4) by (auto simp: inv_prechauffages_def map_of_maj_four)
  qed
  have 3: "inv_commandes s'" using I(3) assms(5,6,7) by (simp add: inv_commandes_def)
  have 4: "inv_taches (S\<lparr>etat := s', prechauffages := retirer i (prechauffages S)\<rparr>)"
    using I(4) assms(4,5,6) by (rule inv_taches_autre_four) (use f in auto)
  have 5: "inv_termines (S\<lparr>etat := s', prechauffages := retirer i (prechauffages S)\<rparr>)"
    using I(5) assms(5,6) by (simp add: inv_termines_def)
  from 1 2 3 4 5 show ?thesis by (simp add: inv_def)
qed

lemma inv_taches_D:
  assumes "inv_taches S" "ta \<in> set (taches S)"
  obtains r f where "commandes (etat S) (cid_de ta) = Some r"
      "etat_tache ta r (tas (etat S) ! r)"
      "map_of (fours (etat S)) (cmd_four_id (tas (etat S) ! r)) = Some f"
      "four_statut f = ''cuisson''" "commande_en_cours f = Some (cid_de ta)"
  using assms unfolding inv_taches_def by blast

lemma inv_commander:
  assumes "inv S" "map_of (fours (etat S)) k = Some f"
    "four_statut f = ''pret'' \<or> four_statut f = ''disponible''"
    "c = ''CMD-'' @ format_04d (Suc (compteur_commandes (etat S)))"
    "fours s' = maj_four k (\<lambda>f. f\<lparr>four_statut := ''cuisson'', commande_en_cours := Some c\<rparr>)
                  (fours (etat S))"
    "tas s' = tas (etat S) @ [obj]" "cmd_four_id obj = k"
    "cmd_statut obj = ''en_preparation''" "cmd_progression obj = 0"
    "commandes s' = (commandes (etat S))(c \<mapsto> length (tas (etat S)))"
    "compteur_commandes s' = Suc (compteur_commandes (etat S))"
  shows "inv (S\<lparr>etat := s', taches := Demarree c # taches S\<rparr>)"
proof -
  let ?S' = "S\<lparr>etat := s', taches := Demarree c # taches S\<rparr>"
  from assms(1) have I: "inv_fours (etat S)" "inv_prechauffages S" "inv_commandes (etat S)"
      "inv_taches S" "inv_termines S" by (simp_all add: inv_def)
  from assms(3) have nc: "four_statut f \<noteq> ''cuisson''" "four_statut f \<noteq> ''prechauffage''" by auto
  have frais: "commandes (etat S) c = None"
  proof (rule ccontr)
    assume "commandes (etat S) c \<noteq> None"
    then obtain r where "commandes (etat S) c = Some r" by blast
    with I(3) obtain n where n: "n \<le> compteur_commandes (etat S)" "c = ''CMD-'' @ format_04d n"
      unfolding inv_commandes_def by blast
    with assms(4) have "format_04d n = format_04d (Suc (compteur_commandes (etat S)))" by simp
    from format_04d_inj[OF this] n(1) show False by simp
  qed
  have autres: "commandes s' c' = commandes (etat S) c'" if "commandes (etat S) c' = Some r" for c' r
    using that frais assms(10) by auto
  have vieux: "tas s' ! r = tas (etat S) ! r" if "commandes (etat S) c' = Some r" for c' r
  proof -
    from that I(3) have "r < length (tas (etat S))" unfolding inv_commandes_def by blast
    with assms(6) show ?thesis by (simp add: nth_append)
  qed
  have 1: "inv_fours s'"
    using I(1) assms(5) by (rule inv_fours_maj) simp
  have 2: "inv_prechauffages ?S'"
    unfolding inv_prechauffages_def
  proof (intro conjI ballI)
    show "distinct (map fst (prechauffages ?S'))"
      using I(2) by (simp add: inv_prechauffages_def)
  next
    fix k' assume "k' \<in> fst ` set (prechauffages ?S')"
    then have "k' \<in> fst ` set (prechauffages S)" by simp
    with I(2) obtain f' where f': "map_of (fours (etat S)) k' = Some f'"
        "four_statut f' = ''prechauffage''"
      unfolding inv_prechauffages_def by blast
    with assms(2) nc have "k' \<noteq> k" by auto
    with f' assms(5) show "\<exists>f. map_of (fours (etat ?S')) k' = Some f \<and> four_statut f = ''prechauffage''"
      by (simp add: map_of_maj_four)
  qed
  have 3: "inv_commandes s'"
    unfolding inv_commandes_def
  proof (intro conjI allI impI)
    fix c' r assume "commandes s' c' = Some r"
    with assms(10) I(3) show "r < length (tas s')"
      unfolding inv_commandes_def by (auto simp: assms(6) less_Suc_eq split: if_splits)
  next
    fix c1 c2 r assume h: "commandes s' c1 = Some r \<and> commandes s' c2 = Some r"
    show "c1 = c2"
    proof (cases "c1 = c \<or> c2 = c")
      case False
      with h assms(10) I(3) show ?thesis unfolding inv_commandes_def by auto
    next
      case True
      with h assms(10) have r: "r = length (tas (etat S))" by (auto split: if_splits)
      have "c' = c" if "commandes s' c' = Some r" for c'
      proof (rule ccontr)
        assume "c' \<noteq> c"
        with that assms(10) have "commandes (etat S) c' = Some r" by simp
        with I(3) have "r < length (tas (etat S))" unfolding inv_commandes_def by blast
        with r show False by simp
      qed
      with h show ?thesis by blast
    qed
  next
    fix r assume "r < length (tas s')"
    then consider "r < length (tas (etat S))" | "r = length (tas (etat S))"
      by (auto simp: assms(6) less_Suc_eq)
    then show "\<exists>c'. commandes s' c' = Some r"
    proof cases
      case 1
      with I(3) obtain c' where "commandes (etat S) c' = Some r"
        unfolding inv_commandes_def by blast
      with autres[OF this] show ?thesis by auto
    next
      case 2
      with assms(10) show ?thesis by auto
    qed
  next
    fix c' r assume h: "commandes s' c' = Some r"
    show "\<exists>n. 0 < n \<and> n \<le> compteur_commandes s' \<and> c' = ''CMD-'' @ format_04d n"
    proof (cases "c' = c")
      case True
      with assms(4,11) show ?thesis by auto
    next
      case False
      with h assms(10) have "commandes (etat S) c' = Some r" by simp
      with I(3) obtain n where "0 < n" "n \<le> compteur_commandes (etat S)"
          "c' = ''CMD-'' @ format_04d n"
        unfolding inv_commandes_def by blast
      with assms(11) show ?thesis by (intro exI[of _ n]) simp
    qed
  qed
  have 4: "inv_taches ?S'"
    unfolding inv_taches_def
  proof (intro conjI ballI)
    have "c \<notin> cid_de ` set (taches S)"
    proof
      assume "c \<in> cid_de ` set (taches S)"
      then obtain ta where ta: "ta \<in> set (taches S)" "cid_de ta = c" by auto
      from inv_taches_D[OF I(4) ta(1)] ta(2) frais show False by auto
    qed
    with I(4) show "distinct (map cid_de (taches ?S'))" by (simp add: inv_taches_def)
  next
    fix ta assume "ta \<in> set (taches ?S')"
    then consider "ta = Demarree c" | "ta \<in> set (taches S)" by auto
    then show "\<exists>r f. commandes (etat ?S') (cid_de ta) = Some r \<and>
          etat_tache ta r (tas (etat ?S') ! r) \<and>
          map_of (fours (etat ?S')) (cmd_four_id (tas (etat ?S') ! r)) = Some f \<and>
          four_statut f = ''cuisson'' \<and> commande_en_cours f = Some (cid_de ta)"
    proof cases
      case 1
      show ?thesis
        apply (rule exI[of _ "length (tas (etat S))"])
        apply (rule exI[of _ "f\<lparr>four_statut := ''cuisson'', commande_en_cours := Some c\<rparr>"])
        using 1 assms by (simp add: map_of_maj_four)
    next
      case 2
      from inv_taches_D[OF I(4) 2] obtain r f' where rf:
        "commandes (etat S) (cid_de ta) = Some r" "etat_tache ta r (tas (etat S) ! r)"
        "map_of (fours (etat S)) (cmd_four_id (tas (etat S) ! r)) = Some f'"
        "four_statut f' = ''cuisson''" "commande_en_cours f' = Some (cid_de ta)" by blast
      from rf(3,4) assms(2) nc have "cmd_four_id (tas (etat S) ! r) \<noteq> k" by auto
      with rf autres[OF rf(1)] vieux[OF rf(1)] assms(5) show ?thesis
        by (simp add: map_of_maj_four)
    qed
  qed
  have 5: "inv_termines ?S'"
    unfolding inv_termines_def
  proof (intro allI impI)
    fix c' r assume h: "commandes (etat ?S') c' = Some r \<and> c' \<notin> cid_de ` set (taches ?S')"
    then have "c' \<noteq> c" "c' \<notin> cid_de ` set (taches S)" by auto
    with h assms(10) have o: "commandes (etat S) c' = Some r" by simp
    with I(5) \<open>c' \<notin> cid_de ` set (taches S)\<close>
    have "cmd_statut (tas (etat S) ! r) = ''termine'' \<and> cmd_progression (tas (etat S) ! r) = 100"
      unfolding inv_termines_def by blast
    with vieux[OF o] show "cmd_statut (tas (etat ?S') ! r) = ''termine'' \<and>
        cmd_progression (tas (etat ?S') ! r) = 100" by simp
  qed
  from 1 2 3 4 5 show ?thesis by (simp add: inv_def)
qed

lemma inv_commandes_inj:
  "inv_commandes s \<Longrightarrow> commandes s c1 = Some r \<Longrightarrow> commandes s c2 = Some r \<Longrightarrow> c1 = c2"
  unfolding inv_commandes_def by blast

lemma inv_commandes_ref:
  "inv_commandes s \<Longrightarrow> commandes s c = Some r \<Longrightarrow> r < length (tas s)"
  unfolding inv_commandes_def by blast

lemma inv_etape:
  assumes "inv S" "i < length (taches S)" "cid_de (taches S ! i) = c"
    "commandes (etat S) c = Some r" "etapes_def = fait @ e # reste"
  shows "inv (S\<lparr>etat := etape_corps c r e t (etat S),
                taches := (taches S)[i := Suspendue c r reste]\<rparr>)"
proof -
  let ?s' = "etape_corps c r e t (etat S)"
  let ?S' = "S\<lparr>etat := ?s', taches := (taches S)[i := Suspendue c r reste]\<rparr>"
  from assms(1) have I: "inv_fours (etat S)" "inv_prechauffages S" "inv_commandes (etat S)"
      "inv_taches S" "inv_termines S" by (simp_all add: inv_def)
  have rl: "r < length (tas (etat S))" by (rule inv_commandes_ref[OF I(3) assms(4)])
  have cids: "map cid_de ((taches S)[i := Suspendue c r reste]) = map cid_de (taches S)"
    using assms(2,3) by (simp add: map_update list_update_same_conv)
  have autre: "tas ?s' ! r' = tas (etat S) ! r'" if "commandes (etat S) c' = Some r'" "c' \<noteq> c" for c' r'
  proof -
    from that assms(4) I(3) have "r' \<noteq> r" by (auto dest: inv_commandes_inj)
    then show ?thesis by (simp add: etape_corps_tas)
  qed
  have 1: "inv_fours ?s'" using I(1) by (simp add: inv_fours_def etape_corps_autres)
  have 2: "inv_prechauffages ?S'"
    using I(2) by (simp add: inv_prechauffages_def etape_corps_autres del: map_of_eq_Some_iff)
  have 3: "inv_commandes ?s'" using I(3) by (simp add: inv_commandes_def etape_corps_autres)
  have 4: "inv_taches ?S'"
    unfolding inv_taches_def
  proof (intro conjI ballI)
    show "distinct (map cid_de (taches ?S'))" using I(4) cids by (simp add: inv_taches_def)
  next
    fix ta assume "ta \<in> set (taches ?S')"
    then have "ta \<in> set ((taches S)[i := Suspendue c r reste])" by simp
    from set_list_update_cases[OF this]
    consider "ta = Suspendue c r reste" | j where "j < length (taches S)" "j \<noteq> i" "ta = taches S ! j"
      by blast
    then show "\<exists>r f. commandes (etat ?S') (cid_de ta) = Some r \<and>
          etat_tache ta r (tas (etat ?S') ! r) \<and>
          map_of (fours (etat ?S')) (cmd_four_id (tas (etat ?S') ! r)) = Some f \<and>
          four_statut f = ''cuisson'' \<and> commande_en_cours f = Some (cid_de ta)"
    proof cases
      case 1
      from assms(2) have "taches S ! i \<in> set (taches S)" by simp
      from inv_taches_D[OF I(4) this] assms(3,4) obtain f where f:
        "map_of (fours (etat S)) (cmd_four_id (tas (etat S) ! r)) = Some f"
        "four_statut f = ''cuisson''" "commande_en_cours f = Some c" by auto
      show ?thesis
        apply (rule exI[of _ r], rule exI[of _ f])
        using 1 f assms(4,5) rl
        by (auto simp: etape_corps_autres etape_corps_tas)
    next
      case 2
      then have m: "ta \<in> set (taches S)" by simp
      from I(4) have "distinct (map cid_de (taches S))" by (simp add: inv_taches_def)
      from distinct_map_nth_neq[OF this assms(2) 2(1,2)] 2(3) assms(3)
      have ne: "cid_de ta \<noteq> c" by simp
      from inv_taches_D[OF I(4) m] obtain r' f' where rf:
        "commandes (etat S) (cid_de ta) = Some r'" "etat_tache ta r' (tas (etat S) ! r')"
        "map_of (fours (etat S)) (cmd_four_id (tas (etat S) ! r')) = Some f'"
        "four_statut f' = ''cuisson''" "commande_en_cours f' = Some (cid_de ta)" by blast
      with autre[OF rf(1) ne] show ?thesis
        by (auto simp: etape_corps_autres)
    qed
  qed
  have 5: "inv_termines ?S'"
    unfolding inv_termines_def
  proof (intro allI impI)
    fix c' r' assume h: "commandes (etat ?S') c' = Some r' \<and> c' \<notin> cid_de ` set (taches ?S')"
    have "cid_de ` set (taches ?S') = cid_de ` set (taches S)"
      using cids by (metis (no_types, lifting) list.set_map select_convs(2) surjective update_convs(1,2))
    moreover from assms(2,3) have "c \<in> cid_de ` set (taches S)" by force
    ultimately have ne: "c' \<noteq> c" "c' \<notin> cid_de ` set (taches S)" using h by auto
    from h have o: "commandes (etat S) c' = Some r'" by (simp add: etape_corps_autres)
    with I(5) ne(2)
    have "cmd_statut (tas (etat S) ! r') = ''termine'' \<and> cmd_progression (tas (etat S) ! r') = 100"
      unfolding inv_termines_def by blast
    with autre[OF o ne(1)] show "cmd_statut (tas (etat ?S') ! r') = ''termine'' \<and>
        cmd_progression (tas (etat ?S') ! r') = 100" by simp
  qed
  from 1 2 3 4 5 show ?thesis by (simp add: inv_def)
qed

lemma inv_terminer:
  assumes "inv S" "i < length (taches S)" "cid_de (taches S ! i) = c"
    "commandes (etat S) c = Some r"
  shows "inv (S\<lparr>etat := terminer c r t (etat S), taches := retirer i (taches S)\<rparr>)"
proof -
  let ?s' = "terminer c r t (etat S)"
  let ?S' = "S\<lparr>etat := ?s', taches := retirer i (taches S)\<rparr>"
  let ?k = "cmd_four_id (tas (etat S) ! r)"
  from assms(1) have I: "inv_fours (etat S)" "inv_prechauffages S" "inv_commandes (etat S)"
      "inv_taches S" "inv_termines S" by (simp_all add: inv_def)
  have rl: "r < length (tas (etat S))" by (rule inv_commandes_ref[OF I(3) assms(4)])
  note fs = terminer_fours[OF rl, of c t]
  from assms(2) have mi: "taches S ! i \<in> set (taches S)" by simp
  from inv_taches_D[OF I(4) mi] assms(3,4) obtain f where f:
    "map_of (fours (etat S)) ?k = Some f"
    "four_statut f = ''cuisson''" "commande_en_cours f = Some c" by auto
  from I(4) have dc: "distinct (map cid_de (taches S))" by (simp add: inv_taches_def)
  from distinct_map_retirer[OF dc assms(2)] assms(3)
  have dr: "distinct (map cid_de (retirer i (taches S)))"
    and nc: "c \<notin> cid_de ` set (retirer i (taches S))" by simp_all
  have autre: "tas ?s' ! r' = tas (etat S) ! r'" if "commandes (etat S) c' = Some r'" "c' \<noteq> c" for c' r'
  proof -
    from that assms(4) I(3) have "r' \<noteq> r" by (auto dest: inv_commandes_inj)
    then show ?thesis by (simp add: terminer_tas)
  qed
  have 1: "inv_fours ?s'"
    using I(1) fs by (rule inv_fours_maj) simp
  have 2: "inv_prechauffages ?S'"
    unfolding inv_prechauffages_def
  proof (intro conjI ballI)
    show "distinct (map fst (prechauffages ?S'))"
      using I(2) by (simp add: inv_prechauffages_def)
  next
    fix k' assume "k' \<in> fst ` set (prechauffages ?S')"
    then have "k' \<in> fst ` set (prechauffages S)" by simp
    with I(2) obtain f' where f': "map_of (fours (etat S)) k' = Some f'"
        "four_statut f' = ''prechauffage''"
      unfolding inv_prechauffages_def by blast
    with f have "k' \<noteq> ?k" by auto
    with f' fs show "\<exists>f. map_of (fours (etat ?S')) k' = Some f \<and> four_statut f = ''prechauffage''"
      by (simp add: map_of_maj_four)
  qed
  have 3: "inv_commandes ?s'" using I(3) by (simp add: inv_commandes_def terminer_autres)
  have 4: "inv_taches ?S'"
    unfolding inv_taches_def
  proof (intro conjI ballI)
    show "distinct (map cid_de (taches ?S'))" using dr by simp
  next
    fix ta assume "ta \<in> set (taches ?S')"
    then have m': "ta \<in> set (retirer i (taches S))" by simp
    with set_retirer[of i "taches S"] have m: "ta \<in> set (taches S)" by auto
    from m' nc have ne: "cid_de ta \<noteq> c" by auto
    from inv_taches_D[OF I(4) m] obtain r' f' where rf:
      "commandes (etat S) (cid_de ta) = Some r'" "etat_tache ta r' (tas (etat S) ! r')"
      "map_of (fours (etat S)) (cmd_four_id (tas (etat S) ! r')) = Some f'"
      "four_statut f' = ''cuisson''" "commande_en_cours f' = Some (cid_de ta)" by blast
    from rf(3,5) f ne have "cmd_four_id (tas (etat S) ! r') \<noteq> ?k" by auto
    with rf autre[OF rf(1) ne] fs
    show "\<exists>r f. commandes (etat ?S') (cid_de ta) = Some r \<and>
          etat_tache ta r (tas (etat ?S') ! r) \<and>
          map_of (fours (etat ?S')) (cmd_four_id (tas (etat ?S') ! r)) = Some f \<and>
          four_statut f = ''cuisson'' \<and> commande_en_cours f = Some (cid_de ta)"
      by (auto simp: terminer_autres map_of_maj_four)
  qed
  have 5: "inv_termines ?S'"
    unfolding inv_termines_def
  proof (intro allI impI)
    fix c' r' assume h: "commandes (etat ?S') c' = Some r' \<and> c' \<notin> cid_de ` set (taches ?S')"
    then have o: "commandes (etat S) c' = Some r'" by (simp add: terminer_autres)
    show "cmd_statut (tas (etat ?S') ! r') = ''termine'' \<and>
        cmd_progression (tas (etat ?S') ! r') = 100"
    proof (cases "c' = c")
      case True
      with o assms(4) have "r' = r" by simp
      with rl show ?thesis by (simp add: terminer_tas)
    next
      case False
      from h have "c' \<notin> cid_de ` set (retirer i (taches S))" by simp
      with set_retirer_nth[OF assms(2)] assms(3) False
      have "c' \<notin> cid_de ` set (taches S)" by auto
      with I(5) o
      have "cmd_statut (tas (etat S) ! r') = ''termine'' \<and> cmd_progression (tas (etat S) ! r') = 100"
        unfolding inv_termines_def by blast
      with autre[OF o False] show ?thesis by simp
    qed
  qed
  from 1 2 3 4 5 show ?thesis by (simp add: inv_def)
qed

section \<open>The invariant holds in every reachable state\<close>

lemma inv_init: "inv systeme_init"
  by (simp add: inv_def inv_fours_def inv_prechauffages_def inv_commandes_def inv_taches_def
      inv_termines_def systeme_init_def cuisine_init_def four_init_def)

lemma inv_pas:
  assumes "inv S" "pas S S'"
  shows "inv S'"
  using assms(2)
proof cases
  case (pas_prechauffage_refus rq t rep s')
  from prechauffage_debut_refus[OF pas_prechauffage_refus(2)] assms(1)
  show ?thesis unfolding pas_prechauffage_refus(1) by (intro inv_meme_coeur) simp_all
next
  case (pas_prechauffage_debut rq t kt s')
  obtain k temp where kt: "kt = (k, temp)" by (cases kt)
  from prechauffage_debut_ok[OF pas_prechauffage_debut(2)[unfolded kt]] assms(1)
  show ?thesis unfolding pas_prechauffage_debut(1) kt by (intro inv_prechauffage_debut) simp_all
next
  case (pas_prechauffage_fin i rep s')
  obtain k temp where kt: "prechauffages S ! i = (k, temp)" by (cases "prechauffages S ! i")
  from prechauffage_fin_effet[OF pas_prechauffage_fin(3)[unfolded kt]] assms(1)
    pas_prechauffage_fin(2) kt
  show ?thesis unfolding pas_prechauffage_fin(1) by (intro inv_prechauffage_fin) simp_all
next
  case (pas_commander_refus rq t rep s')
  from commander_sans_tache[OF pas_commander_refus(2)] assms(1)
  show ?thesis unfolding pas_commander_refus(1) by (intro inv_meme_coeur) simp_all
next
  case (pas_commander rq t rep s' c)
  from commander_avec_tache[OF pas_commander(2)] obtain k f obj where
    "map_of (fours (etat S)) k = Some f"
    "four_statut f = ''pret'' \<or> four_statut f = ''disponible''"
    "c = ''CMD-'' @ format_04d (Suc (compteur_commandes (etat S)))"
    "fours s' = maj_four k (\<lambda>f. f\<lparr>four_statut := ''cuisson'', commande_en_cours := Some c\<rparr>)
                  (fours (etat S))"
    "tas s' = tas (etat S) @ [obj]" "cmd_four_id obj = k"
    "cmd_statut obj = ''en_preparation''" "cmd_progression obj = 0"
    "commandes s' = (commandes (etat S))(c \<mapsto> length (tas (etat S)))"
    "compteur_commandes s' = Suc (compteur_commandes (etat S))" by blast
  with assms(1) show ?thesis unfolding pas_commander(1) by (rule inv_commander)
next
  case (pas_tache_fin i t s')
  from assms(1) have T: "inv_taches S" by (simp add: inv_def)
  from pas_tache_fin(2) have m: "taches S ! i \<in> set (taches S)" by simp
  obtain c where c: "cid_de (taches S ! i) = c" by simp
  from inv_taches_D[OF T m] c obtain r where r:
    "commandes (etat S) c = Some r" "etat_tache (taches S ! i) r (tas (etat S) ! r)" by auto
  from tache_pas_fin[OF c r pas_tache_fin(3)] inv_terminer[OF assms(1) pas_tache_fin(2) c r(1), of t]
  show ?thesis unfolding pas_tache_fin(1) by simp
next
  case (pas_tache_suite i t ta d s')
  from assms(1) have T: "inv_taches S" by (simp add: inv_def)
  from pas_tache_suite(2) have m: "taches S ! i \<in> set (taches S)" by simp
  obtain c where c: "cid_de (taches S ! i) = c" by simp
  from inv_taches_D[OF T m] c obtain r where r:
    "commandes (etat S) c = Some r" "etat_tache (taches S ! i) r (tas (etat S) ! r)" by auto
  from tache_pas_suite[OF c r pas_tache_suite(3)]
  obtain e reste fait where e: "etapes_def = fait @ e # reste" "ta = Suspendue c r reste"
    "s' = etape_corps c r e t (etat S)" by metis
  from inv_etape[OF assms(1) pas_tache_suite(2) c r(1) e(1), of t] e(2,3)
  show ?thesis unfolding pas_tache_suite(1) by simp
next
  case (pas_flux t x s')
  from generate_pas_effet[OF pas_flux(2)] assms(1)
  show ?thesis unfolding pas_flux(1) by (intro inv_meme_coeur) simp_all
qed

lemma atteignable_inv: "atteignable S \<Longrightarrow> inv S"
  by (induction rule: atteignable.induct) (auto intro: inv_init inv_pas)

section \<open>Ovens and the orders bound to them\<close>




lemma atteignable_une_commande: "atteignable systeme_une_commande"
proof -
  have "commander (requete_vide\<lparr>rq_recette := Some ''flan_vanille''\<rparr>) 0 (etat systeme_init) =
      (fst (commander (requete_vide\<lparr>rq_recette := Some ''flan_vanille''\<rparr>) 0 cuisine_init),
       apres_une_commande ''flan_vanille'', Some ''CMD-0001'')"
    using apres_une_commande_champs(5)[OF recette_vanille]
    by (simp add: systeme_init_def apres_une_commande_def prod_eq_iff)
  from atteignable_pas[OF atteignable_init pas_commander[OF this]]
  show ?thesis by (simp add: systeme_une_commande_def systeme_init_def)
qed


section \<open>Progress of an order over its lifetime\<close>

lemma inv_progression:
  assumes "inv S" "r < length (tas (etat S))"
  shows "(cmd_progression (tas (etat S) ! r) = 100)
           = (cmd_statut (tas (etat S) ! r) \<in> {''demoulage'', ''termine''})
       \<and> 0 \<le> cmd_progression (tas (etat S) ! r) \<and> cmd_progression (tas (etat S) ! r) \<le> 100"
proof -
  from assms(1) have I: "inv_commandes (etat S)" "inv_taches S" "inv_termines S"
    by (simp_all add: inv_def)
  from I(1) assms(2) obtain c where c: "commandes (etat S) c = Some r"
    unfolding inv_commandes_def by blast
  show ?thesis
  proof (cases "c \<in> cid_de ` set (taches S)")
    case False
    with I(3) c show ?thesis unfolding inv_termines_def by auto
  next
    case True
    then obtain ta where ta: "ta \<in> set (taches S)" "cid_de ta = c" by auto
    from inv_taches_D[OF I(2) ta(1)] ta(2) c
    have et: "etat_tache ta r (tas (etat S) ! r)" by auto
    show ?thesis
    proof (cases ta)
      case (Demarree c')
      with et show ?thesis by simp
    next
      case (Suspendue c' r' reste)
      with et obtain fait e where e: "etapes_def = fait @ e # reste"
          "cmd_statut (tas (etat S) ! r) = ed_ident e"
          "cmd_progression (tas (etat S) ! r) = ed_progression e" by auto
      from e(1) have "e \<in> set etapes_def" by (metis in_set_conv_decomp)
      from etapes_def_progression[OF this] e(2,3) show ?thesis by auto
    qed
  qed
qed

lemma progression_pas:
  assumes "inv S" "pas S S'" "r < length (tas (etat S))"
  shows "cmd_progression (tas (etat S) ! r) \<le> cmd_progression (tas (etat S') ! r)"
  using assms(2)
proof cases
  case (pas_prechauffage_refus rq t rep s')
  from prechauffage_debut_refus[OF pas_prechauffage_refus(2)] show ?thesis
    unfolding pas_prechauffage_refus(1) by simp
next
  case (pas_prechauffage_debut rq t kt s')
  obtain k temp where kt: "kt = (k, temp)" by (cases kt)
  from prechauffage_debut_ok[OF pas_prechauffage_debut(2)[unfolded kt]] show ?thesis
    unfolding pas_prechauffage_debut(1) by simp
next
  case (pas_prechauffage_fin i rep s')
  obtain k temp where kt: "prechauffages S ! i = (k, temp)" by (cases "prechauffages S ! i")
  from prechauffage_fin_effet[OF pas_prechauffage_fin(3)[unfolded kt]] show ?thesis
    unfolding pas_prechauffage_fin(1) by simp
next
  case (pas_commander_refus rq t rep s')
  from commander_sans_tache[OF pas_commander_refus(2)] show ?thesis
    unfolding pas_commander_refus(1) by simp
next
  case (pas_commander rq t rep s' c)
  from commander_avec_tache[OF pas_commander(2)] obtain obj where
    "tas s' = tas (etat S) @ [obj]" by blast
  with assms(3) show ?thesis unfolding pas_commander(1) by (simp add: nth_append)
next
  case (pas_tache_fin i t s')
  from assms(1) have T: "inv_taches S" by (simp add: inv_def)
  from pas_tache_fin(2) have m: "taches S ! i \<in> set (taches S)" by simp
  obtain c where c: "cid_de (taches S ! i) = c" by simp
  from inv_taches_D[OF T m] c obtain r0 where r:
    "commandes (etat S) c = Some r0" "etat_tache (taches S ! i) r0 (tas (etat S) ! r0)" by auto
  from tache_pas_fin[OF c r pas_tache_fin(3)] inv_progression[OF assms(1,3)] show ?thesis
    unfolding pas_tache_fin(1) by (auto simp: terminer_tas)
next
  case (pas_tache_suite i t ta d s')
  from assms(1) have T: "inv_taches S" by (simp add: inv_def)
  from pas_tache_suite(2) have m: "taches S ! i \<in> set (taches S)" by simp
  obtain c where c: "cid_de (taches S ! i) = c" by simp
  from inv_taches_D[OF T m] c obtain r0 where r:
    "commandes (etat S) c = Some r0" "etat_tache (taches S ! i) r0 (tas (etat S) ! r0)" by auto
  from tache_pas_suite[OF c r pas_tache_suite(3)]
  obtain e where e: "s' = etape_corps c r0 e t (etat S)"
    "cmd_progression (tas (etat S) ! r0) \<le> ed_progression e" by metis
  then show ?thesis unfolding pas_tache_suite(1) by (auto simp: etape_corps_tas)
next
  case (pas_flux t x s')
  from generate_pas_effet[OF pas_flux(2)] show ?thesis
    unfolding pas_flux(1) by simp
qed

text \<open>
  C2 as stated fails after the seventh section of the thread: the order shows 100 percent
  while its stage is \<open>demoulage\<close>, for the 0.4 seconds of the last sleep, and only then
  becomes \<open>termine\<close>.
\<close>

theorem progression_100_avant_termine:
  "fst (avancer 7 (Demarree ''CMD-0001'') 0 (apres_une_commande ''flan_vanille''))
     = Some (Suspendue ''CMD-0001'' 0 [])
   \<and> cmd_progression
        (tas (snd (avancer 7 (Demarree ''CMD-0001'') 0 (apres_une_commande ''flan_vanille''))) ! 0) = 100
   \<and> cmd_statut
        (tas (snd (avancer 7 (Demarree ''CMD-0001'') 0 (apres_une_commande ''flan_vanille''))) ! 0)
       = ''demoulage''
   \<and> ''demoulage'' \<noteq> ''termine''"
  using avancer_boucle[of "apres_une_commande ''flan_vanille''" "''CMD-0001''" 0 etapes_def 0]
  by (simp add: sept_etapes apres_une_commande_champs[OF recette_vanille]) (simp add: etapes_def_def)

text \<open>
  C2 as amended. Over every step of the server from a reachable state, the progress of
  an order does not decrease; and in the state reached, the progress of an order is
  between 0 and 100, and is exactly 100 if and only if its stage is \<open>demoulage\<close>, the
  last stage before the terminal one, or \<open>termine\<close>.
\<close>

theorem progression_croissante:
  assumes "atteignable S" "pas S S'"
  shows "(r < length (tas (etat S)) \<longrightarrow>
            cmd_progression (tas (etat S) ! r) \<le> cmd_progression (tas (etat S') ! r))
       \<and> (r < length (tas (etat S')) \<longrightarrow>
            (cmd_progression (tas (etat S') ! r) = 100)
              = (cmd_statut (tas (etat S') ! r) \<in> {''demoulage'', ''termine''})
            \<and> 0 \<le> cmd_progression (tas (etat S') ! r)
            \<and> cmd_progression (tas (etat S') ! r) \<le> 100)"
proof -
  from atteignable_inv[OF assms(1)] have I: "inv S" .
  from inv_pas[OF I assms(2)] have I': "inv S'" .
  from progression_pas[OF I assms(2)] inv_progression[OF I'] show ?thesis by blast
qed

lemma pas_premiere_etape: "pas systeme_une_commande systeme_premiere_etape"
proof -
  note c = apres_une_commande_champs[OF recette_vanille]
  have "tache_pas (taches systeme_une_commande ! 0) 1 (etat systeme_une_commande) =
      (Some (Suspendue ''CMD-0001'' 0 (tl etapes_def), ed_duree (hd etapes_def)),
       snd (tache_pas (Demarree ''CMD-0001'') 1 (apres_une_commande ''flan_vanille'')))"
    by (simp add: systeme_une_commande_def c etapes_def_def)
  from pas_tache_suite[OF _ this] show ?thesis
    by (simp add: systeme_une_commande_def systeme_premiere_etape_def)
qed

theorem progression_croissante_witness:
  "cmd_progression (tas (etat systeme_une_commande) ! 0)
      \<le> cmd_progression (tas (etat systeme_premiere_etape) ! 0)
   \<and> cmd_progression (tas (etat systeme_une_commande) ! 0) = 0
   \<and> cmd_progression (tas (etat systeme_premiere_etape) ! 0) = 10
   \<and> (cmd_progression (tas (etat systeme_premiere_etape) ! 0) = 100)
       = (cmd_statut (tas (etat systeme_premiere_etape) ! 0) \<in> {''demoulage'', ''termine''})"
proof -
  note c = apres_une_commande_champs[OF recette_vanille]
  have 0: "0 < length (tas (etat systeme_une_commande))"
    by (simp add: systeme_une_commande_def c)
  have 1: "0 < length (tas (etat systeme_premiere_etape))"
    by (simp add: systeme_premiere_etape_def c etapes_def_def etape_corps_autres)
  have 2: "cmd_progression (tas (etat systeme_une_commande) ! 0) = 0"
    by (simp add: systeme_une_commande_def c commande_initiale_def)
  have 3: "cmd_progression (tas (etat systeme_premiere_etape) ! 0) = 10"
    by (simp add: systeme_premiere_etape_def c etapes_def_def etape_corps_tas)
  from progression_croissante[OF atteignable_une_commande pas_premiere_etape, of 0] 0 1 2 3
  show ?thesis by simp
qed

end
